theory Spec2Isabelle
  imports Complex_Main "HOL-Library.Char_ord"
    "HOL-Library.List_Lexorder" "HOL-Library.Product_Lexorder" "HOL-Library.Multiset"
begin

section \<open>Values of the program\<close>

text \<open>
  A cell of a data frame is a text value or missing (\<open>NaN\<close> / \<open>None\<close>). Python exceptions
  are values of \<open>py_error\<close>; a computation that may raise returns \<open>py_error + 'a\<close>.
  A pandas \<open>Timestamp\<close> is its number of nanoseconds since the epoch.
\<close>

type_synonym cell = "string option"

type_synonym timestamp = int

datatype py_error = IndexError | ValueError | AttributeError | ZeroDivisionError | TypeError
  | EmptyDataError | ParserError | OverflowError

subsection \<open>Binary floating point\<close>

text \<open>
  A Python \<open>float\<close> is an IEEE 754 binary64 number. It is modelled by the rational it
  denotes; every arithmetic operation computes the exact result and rounds it to the nearest
  number with a 53 bit significand, ties to even (\<open>fl\<close>). Subnormal numbers keep the
  spacing of the smallest binade; overflow cannot occur for the quantities of this program
  (all of them are at most 10000) and is not modelled.
\<close>

definition round_half_even :: "rat \<Rightarrow> int" where
  "round_half_even q =
     (let f = \<lfloor>q\<rfloor>; d = q - of_int f
      in if d < 1 / 2 then f else if 1 / 2 < d then f + 1 else if even f then f else f + 1)"

text \<open>The number of binary digits of a positive integer (\<open>int.bit_length\<close>).\<close>

function bit_length :: "int \<Rightarrow> nat" where
  "bit_length n = (if n \<le> 0 then 0 else Suc (bit_length (n div 2)))"
  by pat_completeness auto
termination
  by (relation "measure nat") auto

declare bit_length.simps [simp del]

text \<open>The binade of a positive rational: \<open>2 ^ ilog2 q \<le> q < 2 ^ (ilog2 q + 1)\<close>.\<close>

definition ilog2 :: "rat \<Rightarrow> int" where
  "ilog2 q =
     (let (a, b) = quotient_of q;
          e = int (bit_length a) - int (bit_length b)
      in if 2 powi e \<le> q then e else e - 1)"

definition ulp_exp :: "rat \<Rightarrow> int" where
  "ulp_exp q = max (ilog2 \<bar>q\<bar>) (- 1022) - 52"

definition fl :: "rat \<Rightarrow> rat" where
  "fl q = (if q = 0 then 0 else of_int (round_half_even (q / 2 powi ulp_exp q)) * 2 powi ulp_exp q)"

text \<open>\<open>a / b\<close> on integers (true division, correctly rounded); a zero divisor raises
  \<open>ZeroDivisionError\<close>. Python integers and numpy integers divide alike as long as both
  are below \<open>2 ^ 53\<close>, as every count of rows is.\<close>

definition int_truediv :: "nat \<Rightarrow> nat \<Rightarrow> py_error + rat" where
  "int_truediv a b = (if b = 0 then Inl ZeroDivisionError else Inr (fl (of_nat a / of_nat b)))"

definition float_mul :: "rat \<Rightarrow> rat \<Rightarrow> rat" where
  "float_mul x y = fl (x * y)"

text \<open>
  \<open>round(x, ndigits)\<close> on a Python \<open>float\<close>: the decimal with \<open>ndigits\<close> places nearest to
  the exact value of \<open>x\<close> (ties to even), converted back to binary64.
\<close>

definition py_round :: "rat \<Rightarrow> nat \<Rightarrow> rat" where
  "py_round x ndigits = fl (of_int (round_half_even (x * 10 ^ ndigits)) / 10 ^ ndigits)"

text \<open>
  \<open>round(x, ndigits)\<close> on a \<open>numpy.float64\<close>: numpy scales, rounds to an integer and
  scales back, each step in binary64.
\<close>

definition np_round :: "rat \<Rightarrow> nat \<Rightarrow> rat" where
  "np_round x ndigits = fl (of_int (round_half_even (fl (x * 10 ^ ndigits))) / 10 ^ ndigits)"

subsection \<open>Strings and lists\<close>

text \<open>\<open>s.split(c)\<close>: the pieces of \<open>s\<close> between the occurrences of \<open>c\<close>; never empty.\<close>

fun split :: "char \<Rightarrow> string \<Rightarrow> string list" where
  "split c [] = [[]]"
| "split c (x # xs) =
     (if x = c then [] # split c xs
      else (case split c xs of p # ps \<Rightarrow> (x # p) # ps | [] \<Rightarrow> [[x]]))"

text \<open>\<open>xs[i]\<close> raises \<open>IndexError\<close> out of range.\<close>

definition py_index :: "'a list \<Rightarrow> nat \<Rightarrow> py_error + 'a" where
  "py_index xs i = (if i < length xs then Inr (xs ! i) else Inl IndexError)"

text \<open>\<open>Series.unique()\<close>: the distinct values in order of first appearance; a missing value
  is one of them.\<close>

fun unique :: "'a list \<Rightarrow> 'a list" where
  "unique [] = []"
| "unique (x # xs) = x # unique (filter (\<lambda>y. y \<noteq> x) xs)"

text \<open>\<open>series == v\<close> on one cell: a missing value equals nothing, not even itself.\<close>

definition cell_eq :: "cell \<Rightarrow> cell \<Rightarrow> bool" where
  "cell_eq c v = (case v of None \<Rightarrow> False | Some s \<Rightarrow> c = Some s)"

text \<open>Running the bodies of a loop in order; the first exception ends the loop.\<close>

fun sequence_err :: "(py_error + 'a) list \<Rightarrow> py_error + 'a list" where
  "sequence_err [] = Inr []"
| "sequence_err (x # xs) =
     (case x of Inl e \<Rightarrow> Inl e
      | Inr v \<Rightarrow> (case sequence_err xs of Inl e \<Rightarrow> Inl e | Inr vs \<Rightarrow> Inr (v # vs)))"

section \<open>The dataset and the library\<close>

text \<open>
  One record of the combined data frame that \<open>load_and_process_csv\<close> returns: the seven
  positional columns and the two derived keys. \<open>Test_date_time\<close> is a timestamp or missing
  (\<open>NaT\<close>); the keys are the texts that \<open>strftime\<close> produced. A data frame is the list of
  its rows in index order, and \<open>None\<close> is Python's \<open>None\<close>.
\<close>

record row =
  Test_date_time :: "timestamp option"
  Profile_id :: cell
  Test_result :: cell
  Test_status :: cell
  Lab_name :: cell
  Truelab_id :: cell
  Lot :: cell
  Month :: string
  Week :: string

type_synonym dataframe = "row list"

text \<open>The tables that the aggregations return, with the columns of the source.\<close>

record summary_data =
  s_Total_Runs :: nat
  s_Total_Invalids :: nat
  s_Total_Indeterminates :: nat
  s_Overall_Invalid_Indeterminate_pct :: rat

record lab_row =
  l_Lab_Name :: cell
  l_Truelab_ID :: string
  l_Total_Tests :: nat
  l_Total_Detected :: nat
  l_Total_Invalid_Indeterminate :: nat
  l_Invalid_Indeterminate_pct :: rat
  l_Last_10_runs_Invalid_Indeterminate_pct :: rat

record lot_row =
  Lot_Number :: cell
  Total_Runs :: nat
  Total_Invalid_Indeterminate :: nat
  Invalid_Indeterminate_pct :: rat

record 'k trend_row =
  t_Key :: 'k
  t_Total_Runs :: nat
  t_Total_Invalid :: nat
  t_Total_Indeterminate :: nat
  t_Total_Invalid_Indeterminate :: nat

record weekly_row =
  w_Week :: string
  w_Date_Range :: string
  w_Lab_Name :: cell
  w_Total_Runs :: nat
  w_Total_Invalid_Indeterminate :: nat
  w_Invalid_Indeterminate_pct :: rat

text \<open>
  The calls into pandas that the source makes and whose results its own text does not
  determine. They are parameters of the model:
  \<^item> \<open>to_datetime_format f s\<close> is \<open>pd.to_datetime(s, format=f)\<close>, \<open>to_datetime s\<close> is
    \<open>pd.to_datetime(s)\<close>; both raise on a text they cannot parse;
  \<^item> \<open>to_datetime_coerce s\<close> is \<open>pd.to_datetime(s, errors='coerce')\<close> on one text and
    \<open>to_datetime_coerce_column\<close> the same call on a column; a text that cannot be parsed
    gives \<open>NaT\<close>;
  \<^item> \<open>strftime f t\<close> formats a timestamp, \<open>add_days t n\<close> is \<open>t + pd.Timedelta(days=n)\<close>;
  \<^item> \<open>astype_str c\<close> is the element that \<open>series.astype(str).tolist()\<close> holds in the place
    of the cell \<open>c\<close>: a text, or a missing value still. pandas 2 turns a missing value into
    a text (\<open>'nan'\<close> for \<open>NaN\<close>, \<open>'None'\<close> for \<open>None\<close>), pandas 3 keeps it missing;
  \<^item> \<open>sort_lots\<close> is \<open>sort_values('Total Runs', ascending=False)\<close>, \<open>sort_weekly\<close> is
    \<open>sort_values('Lab Name')\<close>, \<open>sort_trend\<close> is \<open>sort_values\<close> on the date column of a
    trend table. The source passes no \<open>kind\<close>, so pandas sorts with its default
    \<open>quicksort\<close>, which orders the keys and promises nothing about equal keys.
\<close>

record pandas =
  to_datetime_format :: "string \<Rightarrow> string \<Rightarrow> py_error + timestamp"
  to_datetime :: "string \<Rightarrow> py_error + timestamp"
  to_datetime_coerce :: "string \<Rightarrow> timestamp option"
  to_datetime_coerce_column :: "cell list \<Rightarrow> timestamp option list"
  strftime :: "string \<Rightarrow> timestamp \<Rightarrow> string"
  add_days :: "timestamp \<Rightarrow> nat \<Rightarrow> py_error + timestamp"
  astype_str :: "cell \<Rightarrow> cell"
  sort_lots :: "lot_row list \<Rightarrow> lot_row list"
  sort_weekly :: "weekly_row list \<Rightarrow> weekly_row list"
  sort_trend :: "timestamp trend_row list \<Rightarrow> timestamp trend_row list"

section \<open>The aggregations\<close>

text \<open>\<open>if selected_profile_id and selected_profile_id != "All": df = df[df['Profile_id'] == selected_profile_id]\<close>\<close>

definition filter_profile :: "string option \<Rightarrow> dataframe \<Rightarrow> dataframe" where
  "filter_profile selected_profile_id df =
     (case selected_profile_id of
        None \<Rightarrow> df
      | Some p \<Rightarrow> if p \<noteq> [] \<and> p \<noteq> ''All'' then filter (\<lambda>r. cell_eq (Profile_id r) (Some p)) df else df)"

text \<open>\<open>if selected_lab and selected_lab != "All Labs": df = df[df['Lab_name'] == selected_lab]\<close>\<close>

definition filter_lab :: "string option \<Rightarrow> dataframe \<Rightarrow> dataframe" where
  "filter_lab selected_lab df =
     (case selected_lab of
        None \<Rightarrow> df
      | Some l \<Rightarrow> if l \<noteq> [] \<and> l \<noteq> ''All Labs'' then filter (\<lambda>r. cell_eq (Lab_name r) (Some l)) df else df)"

text \<open>The number of rows of a frame whose status is the given text.\<close>

definition count_status :: "string \<Rightarrow> dataframe \<Rightarrow> nat" where
  "count_status s df = length (filter (\<lambda>r. cell_eq (Test_status r) (Some s)) df)"

text \<open>
  \<open>((total_invalid + total_indeterminate) / total_runs * 100) if total_runs > 0 else 0\<close>
\<close>

definition invalid_rate :: "nat \<Rightarrow> nat \<Rightarrow> nat \<Rightarrow> py_error + rat" where
  "invalid_rate total_invalid total_indeterminate total_runs =
     (if total_runs > 0
      then (case int_truediv (total_invalid + total_indeterminate) total_runs of
              Inl e \<Rightarrow> Inl e
            | Inr x \<Rightarrow> Inr (float_mul x 100))
      else Inr 0)"

subsection \<open>Weekly analysis by lab\<close>

text \<open>
  The body of the \<open>try\<close> of \<open>weekly_analysis\<close>: the two pieces of the week key, the Monday
  of that week, the day six days later and the text of the range.
\<close>

definition week_date_range :: "pandas \<Rightarrow> string \<Rightarrow> py_error + string" where
  "week_date_range pd week =
     (case py_index (split CHR ''-'' week) 0 of Inl e \<Rightarrow> Inl e | Inr year \<Rightarrow>
      case py_index (split CHR ''-'' week) 1 of Inl e \<Rightarrow> Inl e | Inr week_num \<Rightarrow>
      case to_datetime_format pd ''%Y-%U-%w'' (year @ ''-'' @ week_num @ ''-1'') of
        Inl e \<Rightarrow> Inl e | Inr week_start \<Rightarrow>
      case add_days pd week_start 6 of Inl e \<Rightarrow> Inl e | Inr week_end \<Rightarrow>
      Inr (strftime pd ''%d-%m-%Y'' week_start @ '' to '' @ strftime pd ''%d-%m-%Y'' week_end))"

text \<open>\<open>except (IndexError, ValueError): date_range = f"Week {week}"\<close>; any other exception
  leaves the function.\<close>

definition date_range_of :: "pandas \<Rightarrow> string \<Rightarrow> py_error + string" where
  "date_range_of pd week =
     (case week_date_range pd week of
        Inr s \<Rightarrow> Inr s
      | Inl e \<Rightarrow> if e = IndexError \<or> e = ValueError then Inr (''Week '' @ week) else Inl e)"

text \<open>One pass of the inner loop: the row of one lab in one week. The label of the week is
  built from both pieces of the key, outside the \<open>try\<close>.\<close>

definition lab_week_row :: "dataframe \<Rightarrow> string \<Rightarrow> string \<Rightarrow> cell \<Rightarrow> py_error + weekly_row" where
  "lab_week_row week_df week date_range lab_name =
     (let lab_week_df = filter (\<lambda>r. cell_eq (Lab_name r) lab_name) week_df;
          total_runs = length lab_week_df;
          total_invalid = count_status ''Invalid'' lab_week_df;
          total_indeterminate = count_status ''Indeterminate'' lab_week_df
      in case invalid_rate total_invalid total_indeterminate total_runs of
           Inl e \<Rightarrow> Inl e | Inr invalid_percent \<Rightarrow>
         case py_index (split CHR ''-'' week) 0 of Inl e \<Rightarrow> Inl e | Inr y \<Rightarrow>
         case py_index (split CHR ''-'' week) 1 of Inl e \<Rightarrow> Inl e | Inr n \<Rightarrow>
         Inr \<lparr>w_Week = y @ '' Week '' @ n,
              w_Date_Range = date_range,
              w_Lab_Name = lab_name,
              w_Total_Runs = total_runs,
              w_Total_Invalid_Indeterminate = total_invalid + total_indeterminate,
              w_Invalid_Indeterminate_pct = py_round invalid_percent 2\<rparr>)"

text \<open>One pass of the outer loop: the rows of one week.\<close>

definition week_rows :: "pandas \<Rightarrow> dataframe \<Rightarrow> string \<Rightarrow> py_error + weekly_row list" where
  "week_rows pd df week =
     (let week_df = filter (\<lambda>r. Week r = week) df
      in case date_range_of pd week of
           Inl e \<Rightarrow> Inl e
         | Inr date_range \<Rightarrow>
             sequence_err (map (lab_week_row week_df week date_range) (unique (map Lab_name week_df))))"

definition weekly_lab_data :: "pandas \<Rightarrow> dataframe \<Rightarrow> py_error + weekly_row list" where
  "weekly_lab_data pd df =
     (case sequence_err (map (week_rows pd df) (sort (unique (map Week df)))) of
        Inl e \<Rightarrow> Inl e
      | Inr rows \<Rightarrow> Inr (concat rows))"

definition weekly_analysis ::
  "pandas \<Rightarrow> dataframe option \<Rightarrow> string option \<Rightarrow> string option \<Rightarrow> py_error + weekly_row list option"
where
  "weekly_analysis pd df selected_profile_id selected_lab =
     (case df of
        None \<Rightarrow> Inr None
      | Some df0 \<Rightarrow>
          if df0 = [] then Inr None
          else let df1 = filter_profile selected_profile_id df0;
                   df2 = filter_lab selected_lab df1
               in if df2 = [] then Inr None
                  else (case weekly_lab_data pd df2 of
                          Inl e \<Rightarrow> Inl e
                        | Inr df_result \<Rightarrow>
                            Inr (Some (if df_result \<noteq> [] then sort_weekly pd df_result else df_result))))"

subsection \<open>Lot analysis\<close>

text \<open>One pass of the loop over \<open>df['Lot'].unique()\<close>.\<close>

definition lot_data_row :: "dataframe \<Rightarrow> cell \<Rightarrow> py_error + lot_row" where
  "lot_data_row df lot_number =
     (let lot_df = filter (\<lambda>r. cell_eq (Lot r) lot_number) df;
          total_runs = length lot_df;
          total_invalid = count_status ''Invalid'' lot_df;
          total_indeterminate = count_status ''Indeterminate'' lot_df
      in case invalid_rate total_invalid total_indeterminate total_runs of
           Inl e \<Rightarrow> Inl e
         | Inr invalid_percent \<Rightarrow>
             Inr \<lparr>Lot_Number = lot_number,
                  Total_Runs = total_runs,
                  Total_Invalid_Indeterminate = total_invalid + total_indeterminate,
                  Invalid_Indeterminate_pct = py_round invalid_percent 2\<rparr>)"

definition lot_specific_analysis ::
  "pandas \<Rightarrow> dataframe option \<Rightarrow> string option \<Rightarrow>
   py_error + (lot_row list option \<times> lot_row list option)"
where
  "lot_specific_analysis pd df selected_profile_id =
     (case df of
        None \<Rightarrow> Inr (None, None)
      | Some df0 \<Rightarrow>
          if df0 = [] then Inr (None, None)
          else let df1 = filter_profile selected_profile_id df0
               in if df1 = [] then Inr (None, None)
                  else (case sequence_err (map (lot_data_row df1) (unique (map Lot df1))) of
                          Inl e \<Rightarrow> Inl e
                        | Inr lot_df \<Rightarrow>
                            if lot_df \<noteq> [] \<and> length lot_df > 0
                            then Inr (Some lot_df, Some (take 20 (sort_lots pd lot_df)))
                            else Inr (Some lot_df, None)))"

subsection \<open>Trend analysis\<close>

text \<open>
  \<open>df.groupby(key).agg(...).reset_index()\<close> followed by the sum column: one row per key,
  the keys ascending. \<open>count\<close> counts the timestamps that are not missing.
\<close>

definition group_row :: "(row \<Rightarrow> string) \<Rightarrow> dataframe \<Rightarrow> string \<Rightarrow> string trend_row" where
  "group_row key df k =
     (let g = filter (\<lambda>r. key r = k) df
      in \<lparr>t_Key = k,
          t_Total_Runs = length (filter (\<lambda>r. Test_date_time r \<noteq> None) g),
          t_Total_Invalid = count_status ''Invalid'' g,
          t_Total_Indeterminate = count_status ''Indeterminate'' g,
          t_Total_Invalid_Indeterminate = count_status ''Invalid'' g + count_status ''Indeterminate'' g\<rparr>)"

definition groupby_agg :: "(row \<Rightarrow> string) \<Rightarrow> dataframe \<Rightarrow> string trend_row list" where
  "groupby_agg key df = map (group_row key df) (sort (unique (map key df)))"

text \<open>Replacing the key column of a trend table by the parsed dates; the first text that
  does not convert raises.\<close>

definition convert_keys ::
  "(string \<Rightarrow> py_error + timestamp) \<Rightarrow> string trend_row list \<Rightarrow> py_error + timestamp trend_row list"
where
  "convert_keys conv tbl =
     sequence_err (map (\<lambda>r. case conv (t_Key r) of
                               Inl e \<Rightarrow> Inl e
                             | Inr d \<Rightarrow> Inr \<lparr>t_Key = d, t_Total_Runs = t_Total_Runs r,
                                             t_Total_Invalid = t_Total_Invalid r,
                                             t_Total_Indeterminate = t_Total_Indeterminate r,
                                             t_Total_Invalid_Indeterminate =
                                               t_Total_Invalid_Indeterminate r\<rparr>) tbl)"

text \<open>\<open>pd.to_datetime(monthly_data['Month'] + '-01')\<close> on one key.\<close>

definition month_to_date :: "pandas \<Rightarrow> string \<Rightarrow> py_error + timestamp" where
  "month_to_date pd x = to_datetime pd (x @ ''-01'')"

text \<open>\<open>f"{x.split('-')[0]}-W{x.split('-')[1]}-1"\<close> parsed with \<open>format='%Y-W%U-%w'\<close>.\<close>

definition week_to_date :: "pandas \<Rightarrow> string \<Rightarrow> py_error + timestamp" where
  "week_to_date pd x =
     (case py_index (split CHR ''-'' x) 0 of Inl e \<Rightarrow> Inl e | Inr y \<Rightarrow>
      case py_index (split CHR ''-'' x) 1 of Inl e \<Rightarrow> Inl e | Inr n \<Rightarrow>
      to_datetime_format pd ''%Y-W%U-%w'' (y @ ''-W'' @ n @ ''-1''))"

definition trend_analysis ::
  "pandas \<Rightarrow> dataframe option \<Rightarrow> string option \<Rightarrow> string option \<Rightarrow>
   py_error + (timestamp trend_row list option \<times> timestamp trend_row list option)"
where
  "trend_analysis pd df selected_profile_id selected_lab =
     (case df of
        None \<Rightarrow> Inr (None, None)
      | Some df0 \<Rightarrow>
          if df0 = [] then Inr (None, None)
          else let df1 = filter_profile selected_profile_id df0;
                   df2 = filter_lab selected_lab df1
               in if df2 = [] then Inr (None, None)
                  else (case convert_keys (month_to_date pd) (groupby_agg Month df2) of
                          Inl e \<Rightarrow> Inl e
                        | Inr monthly_data \<Rightarrow>
                            (case convert_keys (week_to_date pd) (groupby_agg Week df2) of
                               Inl e \<Rightarrow> Inl e
                             | Inr weekly_data \<Rightarrow>
                                 Inr (Some (sort_trend pd monthly_data),
                                      Some (sort_trend pd weekly_data)))))"

subsection \<open>Profile analysis\<close>

text \<open>\<open>sep.join(xs)\<close>: the texts of \<open>xs\<close> with \<open>sep\<close> between them; \<open>TypeError\<close> when an
  element of \<open>xs\<close> is no text.\<close>

fun join_texts :: "string \<Rightarrow> string list \<Rightarrow> string" where
  "join_texts sep [] = []"
| "join_texts sep [x] = x"
| "join_texts sep (x # y # ys) = x @ sep @ join_texts sep (y # ys)"

definition join :: "string \<Rightarrow> cell list \<Rightarrow> py_error + string" where
  "join sep xs =
     (if list_all (\<lambda>c. c \<noteq> None) xs then Inr (join_texts sep (map the xs)) else Inl TypeError)"

text \<open>\<open>df.tail(n)\<close>: the last \<open>n\<close> rows.\<close>

definition tail :: "nat \<Rightarrow> 'a list \<Rightarrow> 'a list" where
  "tail n xs = drop (length xs - n) xs"

text \<open>
  One pass of the loop over \<open>df['Lab_name'].unique()\<close>. The counts come out of
  \<open>value_counts()\<close> as numpy integers, so the percentages are \<open>numpy.float64\<close> and
  \<open>round\<close> is numpy's. (Where neither status occurs both counts are the default 0 of
  \<open>get\<close>, the percentage is a Python float 0.0 and either rounding gives 0.) The device
  ids are \<open>', '.join(lab_df['Truelab_id'].drop_duplicates().astype(str).tolist())\<close>, which
  raises \<open>TypeError\<close> when \<open>astype(str)\<close> has left a missing value in the list.
\<close>

definition lab_data_row :: "pandas \<Rightarrow> dataframe \<Rightarrow> cell \<Rightarrow> py_error + lab_row" where
  "lab_data_row pd df lab_name =
     (let lab_df = filter (\<lambda>r. cell_eq (Lab_name r) lab_name) df;
          total_tests = length lab_df;
          total_detected = length (filter (\<lambda>r. cell_eq (Test_result r) (Some ''Detected'')) lab_df);
          total_invalid = count_status ''Invalid'' lab_df;
          total_indeterminate = count_status ''Indeterminate'' lab_df;
          last_10 = tail 10 lab_df
      in case invalid_rate total_invalid total_indeterminate total_tests of
           Inl e \<Rightarrow> Inl e
         | Inr invalid_percent \<Rightarrow>
             (case (if last_10 \<noteq> []
                    then invalid_rate (count_status ''Invalid'' last_10)
                           (count_status ''Indeterminate'' last_10) (length last_10)
                    else Inr 0) of
                Inl e \<Rightarrow> Inl e
              | Inr last_10_invalid_percent \<Rightarrow>
                  (case join '', '' (map (astype_str pd) (unique (map Truelab_id lab_df))) of
                     Inl e \<Rightarrow> Inl e
                   | Inr truelab_ids \<Rightarrow>
                       Inr \<lparr>l_Lab_Name = lab_name,
                            l_Truelab_ID = truelab_ids,
                            l_Total_Tests = total_tests,
                            l_Total_Detected = total_detected,
                            l_Total_Invalid_Indeterminate = total_invalid + total_indeterminate,
                            l_Invalid_Indeterminate_pct = np_round invalid_percent 2,
                            l_Last_10_runs_Invalid_Indeterminate_pct =
                              np_round last_10_invalid_percent 2\<rparr>)))"

definition overall_summary :: "dataframe \<Rightarrow> py_error + summary_data" where
  "overall_summary df =
     (let total_runs = length df;
          total_invalids = count_status ''Invalid'' df;
          total_indeterminates = count_status ''Indeterminate'' df
      in case invalid_rate total_invalids total_indeterminates total_runs of
           Inl e \<Rightarrow> Inl e
         | Inr invalid_indeterminate_percent \<Rightarrow>
             Inr \<lparr>s_Total_Runs = total_runs,
                  s_Total_Invalids = total_invalids,
                  s_Total_Indeterminates = total_indeterminates,
                  s_Overall_Invalid_Indeterminate_pct = np_round invalid_indeterminate_percent 2\<rparr>)"

text \<open>
  The body of \<open>profile_id_analysis\<close>, as a function of the data frame that it reads from
  \<open>st.session_state.data\<close>.
\<close>

type_synonym profile_result = "summary_data option \<times> lab_row list option"

definition profile_id_analysis_body ::
  "pandas \<Rightarrow> dataframe option \<Rightarrow> string option \<Rightarrow> py_error + profile_result"
where
  "profile_id_analysis_body pd df selected_profile_id =
     (case df of
        None \<Rightarrow> Inr (None, None)
      | Some df0 \<Rightarrow>
          if df0 = [] then Inr (None, None)
          else let df1 = filter_profile selected_profile_id df0
               in if df1 = [] then Inr (None, None)
                  else (case overall_summary df1 of
                          Inl e \<Rightarrow> Inl e
                        | Inr summary_data \<Rightarrow>
                            (case sequence_err (map (lab_data_row pd df1) (unique (map Lab_name df1))) of
                               Inl e \<Rightarrow> Inl e
                             | Inr lab_data \<Rightarrow> Inr (Some summary_data, Some lab_data))))"

text \<open>
  What \<open>profile_id_analysis\<close> reads and writes beside its arguments: the data frame kept in
  \<open>st.session_state.data\<close> and the table of \<open>functools.lru_cache(maxsize=32)\<close>, most recently
  used entry first. The key of an entry is the pair of the arguments, \<open>df_hash\<close> and
  \<open>selected_profile_id\<close>. A call that raises leaves the cache as it was.
\<close>

record app_state =
  session_state_data :: "dataframe option"
  lru_cache :: "((int option \<times> string option) \<times> profile_result) list"

definition profile_id_analysis ::
  "pandas \<Rightarrow> app_state \<Rightarrow> int option \<Rightarrow> string option \<Rightarrow>
   (py_error + profile_result) \<times> app_state"
where
  "profile_id_analysis pd st df_hash selected_profile_id =
     (let key = (df_hash, selected_profile_id)
      in case map_of (lru_cache st) key of
           Some result \<Rightarrow>
             (Inr result,
              st\<lparr>lru_cache := (key, result) # filter (\<lambda>kv. fst kv \<noteq> key) (lru_cache st)\<rparr>)
         | None \<Rightarrow>
             (case profile_id_analysis_body pd (session_state_data st) selected_profile_id of
                Inl e \<Rightarrow> (Inl e, st)
              | Inr result \<Rightarrow>
                  (Inr result, st\<lparr>lru_cache := take 32 ((key, result) # lru_cache st)\<rparr>)))"

section \<open>Reading the files\<close>

subsection \<open>\<open>parse_date\<close>\<close>

text \<open>
  \<open>parse_date\<close> tries the format with the day first, then \<open>pd.to_datetime\<close> without a
  format, and at last the call with \<open>errors='coerce'\<close>, whose result for a text that
  cannot be parsed is \<open>NaT\<close>. Each bare \<open>except\<close> catches every exception. The
  \<open>lru_cache\<close> around it stores results of a function of its argument alone and changes
  none of them.
\<close>

definition parse_date :: "pandas \<Rightarrow> string \<Rightarrow> timestamp option" where
  "parse_date pd date_string =
     (case to_datetime_format pd ''%d-%m-%Y %H:%M:%S'' date_string of
        Inr t \<Rightarrow> Some t
      | Inl _ \<Rightarrow>
          (case to_datetime pd date_string of
             Inr t \<Rightarrow> Some t
           | Inl _ \<Rightarrow> to_datetime_coerce pd date_string))"

subsection \<open>Raw tables\<close>

text \<open>
  What \<open>pd.read_csv\<close> returns: the labels of the columns and the rows of cells. A label is
  a text from a header line or, with \<open>header=None\<close>, the position of the column. Every row
  of a data frame has one cell for each column (\<open>rectangular\<close>).
\<close>

datatype label = Name string | Position nat

record frame =
  frame_columns :: "label list"
  frame_values :: "cell list list"

definition rectangular :: "frame \<Rightarrow> bool" where
  "rectangular data = list_all (\<lambda>r. length r = length (frame_columns data)) (frame_values data)"

text \<open>
  An uploaded file is known by what the two calls of \<open>pd.read_csv\<close> on it give: the call
  with the default header and the call with \<open>header=None\<close>. Either may raise.
\<close>

record uploaded_file =
  read_csv :: "py_error + frame"
  read_csv_header_none :: "py_error + frame"

text \<open>\<open>all(col.startswith(p) for col in columns)\<close>: a label that is an integer has no
  \<open>startswith\<close>; \<open>all\<close> stops at the first label that fails.\<close>

definition startswith :: "string \<Rightarrow> string \<Rightarrow> bool" where
  "startswith s p = (take (length p) s = p)"

fun all_startswith :: "string \<Rightarrow> label list \<Rightarrow> py_error + bool" where
  "all_startswith p [] = Inr True"
| "all_startswith p (Name s # cols) = (if startswith s p then all_startswith p cols else Inr False)"
| "all_startswith p (Position n # cols) = Inl AttributeError"

fun is_int :: "label \<Rightarrow> bool" where
  "is_int (Position n) = True"
| "is_int (Name s) = False"

text \<open>The test for a file without a header line.\<close>

definition no_header :: "label list \<Rightarrow> py_error + bool" where
  "no_header cols =
     (case all_startswith ''Unnamed'' cols of
        Inl e \<Rightarrow> Inl e
      | Inr b \<Rightarrow> Inr (b \<or> list_all is_int cols))"

definition column_mapping :: "(nat \<times> string) list" where
  "column_mapping =
     [(0, ''Test_date_time''), (1, ''Profile_id''), (3, ''Test_result''), (4, ''Test_status''),
      (5, ''Lab_name''), (8, ''Truelab_id''), (9, ''Lot'')]"

text \<open>\<open>data.iloc[:, positions]\<close> raises \<open>IndexError\<close> when a position is not a column of
  the frame; \<open>data.iloc[:, i]\<close> likewise.\<close>

definition iloc_columns :: "frame \<Rightarrow> nat list \<Rightarrow> py_error + frame" where
  "iloc_columns data positions =
     (if list_all (\<lambda>p. p < length (frame_columns data)) positions
      then Inr \<lparr>frame_columns = map (\<lambda>p. frame_columns data ! p) positions,
                frame_values = map (\<lambda>r. map (\<lambda>p. r ! p) positions) (frame_values data)\<rparr>
      else Inl IndexError)"

definition iloc_column :: "frame \<Rightarrow> nat \<Rightarrow> py_error + cell list" where
  "iloc_column data i =
     (if i < length (frame_columns data) then Inr (map (\<lambda>r. r ! i) (frame_values data))
      else Inl IndexError)"

text \<open>\<open>data.columns = names\<close> raises \<open>ValueError\<close> when the number of names is not the
  number of columns.\<close>

definition set_columns :: "frame \<Rightarrow> string list \<Rightarrow> py_error + frame" where
  "set_columns data names =
     (if length names = length (frame_columns data)
      then Inr (data\<lparr>frame_columns := map Name names\<rparr>)
      else Inl ValueError)"

text \<open>The \<open>try\<close> of the column selection: select the required positions, then rename.\<close>

definition select_required :: "frame \<Rightarrow> py_error + frame" where
  "select_required data =
     (case iloc_columns data (map fst column_mapping) of
        Inl e \<Rightarrow> Inl e
      | Inr d \<Rightarrow> set_columns d (map snd column_mapping))"

text \<open>
  \<open>new_df[col_name] = series\<close>: a frame without rows takes its rows from the series;
  otherwise row \<open>i\<close> gets the value of the series at \<open>i\<close>, missing when the series is
  shorter. \<open>new_df[col_name] = None\<close> puts \<open>None\<close> into every row there is.
\<close>

definition assign_series :: "frame \<Rightarrow> string \<Rightarrow> cell list \<Rightarrow> frame" where
  "assign_series new_df col_name series =
     (if frame_values new_df = []
      then \<lparr>frame_columns = frame_columns new_df @ [Name col_name],
            frame_values = map (\<lambda>c. replicate (length (frame_columns new_df)) None @ [c]) series\<rparr>
      else \<lparr>frame_columns = frame_columns new_df @ [Name col_name],
            frame_values =
              map (\<lambda>i. frame_values new_df ! i @ [if i < length series then series ! i else None])
                [0..<length (frame_values new_df)]\<rparr>)"

definition assign_scalar :: "frame \<Rightarrow> string \<Rightarrow> cell \<Rightarrow> frame" where
  "assign_scalar new_df col_name v =
     \<lparr>frame_columns = frame_columns new_df @ [Name col_name],
      frame_values = map (\<lambda>r. r @ [v]) (frame_values new_df)\<rparr>"

text \<open>The loop of the alternative method over the items of \<open>column_mapping\<close>.\<close>

fun build_new_df :: "frame \<Rightarrow> (nat \<times> string) list \<Rightarrow> frame \<Rightarrow> py_error + frame" where
  "build_new_df data [] new_df = Inr new_df"
| "build_new_df data ((col_idx, col_name) # mapping) new_df =
     (if col_idx < length (frame_columns data)
      then (case iloc_column data col_idx of
              Inl e \<Rightarrow> Inl e
            | Inr series \<Rightarrow> build_new_df data mapping (assign_series new_df col_name series))
      else build_new_df data mapping (assign_scalar new_df col_name None))"

definition alternative_method :: "frame \<Rightarrow> py_error + frame" where
  "alternative_method data =
     build_new_df data column_mapping \<lparr>frame_columns = [], frame_values = []\<rparr>"

text \<open>
  The body of the loop over the uploaded files, up to \<open>all_data.append\<close>. \<open>Inl\<close> is an
  exception that reaches the outer \<open>except\<close>, which reports it and goes on to the next
  file. The inner \<open>except\<close> catches every exception of the column selection and runs the
  alternative method.
\<close>

definition process_file :: "uploaded_file \<Rightarrow> py_error + frame" where
  "process_file uploaded_file =
     (case read_csv uploaded_file of
        Inl e \<Rightarrow> Inl e
      | Inr data0 \<Rightarrow>
          (case no_header (frame_columns data0) of
             Inl e \<Rightarrow> Inl e
           | Inr h \<Rightarrow>
               (case (if h then read_csv_header_none uploaded_file else Inr data0) of
                  Inl e \<Rightarrow> Inl e
                | Inr data \<Rightarrow>
                    (case select_required data of
                       Inr d \<Rightarrow> Inr d
                     | Inl _ \<Rightarrow> alternative_method data))))"

text \<open>The frames that the loop appends to \<open>all_data\<close>: one for each file that did not
  raise, in the order of the files.\<close>

definition all_data_of :: "uploaded_file list \<Rightarrow> frame list" where
  "all_data_of uploaded_files =
     concat (map (\<lambda>f. case process_file f of Inl _ \<Rightarrow> [] | Inr d \<Rightarrow> [d]) uploaded_files)"

text \<open>\<open>pd.concat(all_data, ignore_index=True)\<close> of frames that carry the same seven
  columns: their rows, one frame after the other.\<close>

definition concat_rows :: "frame list \<Rightarrow> cell list list" where
  "concat_rows all_data = concat (map frame_values all_data)"

text \<open>One record of the result: the cells of a row in the order of \<open>column_mapping\<close>,
  the parsed time in place of the first, and the two keys.\<close>

definition make_row :: "pandas \<Rightarrow> cell list \<Rightarrow> timestamp \<Rightarrow> row" where
  "make_row pd r t =
     \<lparr>Test_date_time = Some t, Profile_id = r ! 1, Test_result = r ! 2, Test_status = r ! 3,
      Lab_name = r ! 4, Truelab_id = r ! 5, Lot = r ! 6,
      Month = strftime pd ''%Y-%m'' t, Week = strftime pd ''%Y-%U'' t\<rparr>"

text \<open>\<open>dropna(subset=['Test_date_time'])\<close> on the rows paired with their parsed times.\<close>

fun dropna :: "(cell list \<times> timestamp option) list \<Rightarrow> (cell list \<times> timestamp) list" where
  "dropna [] = []"
| "dropna ((r, None) # xs) = dropna xs"
| "dropna ((r, Some t) # xs) = (r, t) # dropna xs"

definition load_and_process_csv :: "pandas \<Rightarrow> uploaded_file list \<Rightarrow> dataframe option" where
  "load_and_process_csv pd uploaded_files =
     (if uploaded_files = [] then None
      else let all_data = all_data_of uploaded_files
           in if all_data = [] then None
              else let combined_df = concat_rows all_data;
                       parsed = to_datetime_coerce_column pd (map (\<lambda>r. r ! 0) combined_df)
                   in Some (map (\<lambda>(r, t). make_row pd r t) (dropna (zip combined_df parsed))))"

section \<open>Notions for the statements\<close>

text \<open>The rows that an aggregation works on: the data frame after both filters; no rows
  when there is no data frame.\<close>

definition filtered :: "dataframe option \<Rightarrow> string option \<Rightarrow> string option \<Rightarrow> dataframe" where
  "filtered df selected_profile_id selected_lab =
     (case df of
        None \<Rightarrow> []
      | Some df0 \<Rightarrow> filter_lab selected_lab (filter_profile selected_profile_id df0))"

text \<open>
  The percentage of a group of rows as the specification words it:
  \<open>round((count of 'Invalid' + count of 'Indeterminate') / row count * 100, 2)\<close> when the
  group has rows, and 0 when it has none. The division and the multiplication are those of
  binary64; \<open>round_fn\<close> is the rounding of the number type at hand.
\<close>

definition invalid_rate_pct :: "(rat \<Rightarrow> nat \<Rightarrow> rat) \<Rightarrow> dataframe \<Rightarrow> rat" where
  "invalid_rate_pct round_fn g =
     (if 0 < length g
      then round_fn
             (fl (fl (of_nat (count_status ''Invalid'' g + count_status ''Indeterminate'' g) /
                      of_nat (length g)) * 100)) 2
      else 0)"

text \<open>
  The groups of the weekly table: the pairs of a week key and a lab name that the loops of
  \<open>weekly_analysis\<close> visit (the week keys ascending, the lab names of a week in order of
  first appearance, a missing name among them), the rows of a pair, and the label
  \<open>f"{week.split('-')[0]} Week {week.split('-')[1]}"\<close> of a week key that holds a hyphen.
\<close>

definition week_lab_groups :: "dataframe \<Rightarrow> (string \<times> cell) list" where
  "week_lab_groups df =
     concat (map (\<lambda>week. map (Pair week) (unique (map Lab_name (filter (\<lambda>r. Week r = week) df))))
               (sort (unique (map Week df))))"

definition week_lab_rows :: "dataframe \<Rightarrow> string \<Rightarrow> cell \<Rightarrow> dataframe" where
  "week_lab_rows df week lab_name =
     filter (\<lambda>r. cell_eq (Lab_name r) lab_name) (filter (\<lambda>r. Week r = week) df)"

definition week_label :: "string \<Rightarrow> string" where
  "week_label week =
     (case split CHR ''-'' week of y # n # rest \<Rightarrow> y @ '' Week '' @ n | _ \<Rightarrow> week)"

text \<open>The cell at a position of a row of a raw table, missing when the table has no
  such column.\<close>

definition pick :: "frame \<Rightarrow> cell list \<Rightarrow> nat \<Rightarrow> cell" where
  "pick data r p = (if p < length (frame_columns data) then r ! p else None)"

text \<open>The rows of all frames that were read, each with the result of parsing its first
  cell.\<close>

definition parsed_rows :: "pandas \<Rightarrow> uploaded_file list \<Rightarrow> (cell list \<times> timestamp option) list" where
  "parsed_rows pd uploaded_files =
     zip (concat_rows (all_data_of uploaded_files))
       (to_datetime_coerce_column pd (map (\<lambda>r. r ! 0) (concat_rows (all_data_of uploaded_files))))"

text \<open>The test of the source for the absence of data: \<open>df is None or df.empty\<close>.\<close>

definition is_empty_dataset :: "dataframe option \<Rightarrow> bool" where
  "is_empty_dataset df = (case df of None \<Rightarrow> True | Some rows \<Rightarrow> rows = [])"

text \<open>
  The cache of \<open>profile_id_analysis\<close> is coherent with the session when every entry holds
  what the body computes from the data frame of the session for the profile of its key. An
  empty cache is coherent.
\<close>

definition cache_coherent :: "pandas \<Rightarrow> app_state \<Rightarrow> bool" where
  "cache_coherent pd st =
     list_all (\<lambda>(key, result).
                 profile_id_analysis_body pd (session_state_data st) (snd key) = Inr result)
       (lru_cache st)"

text \<open>The order of \<open>sort_values\<close> on a text column: texts ascending, missing values last.\<close>

definition lab_key :: "cell \<Rightarrow> bool \<times> string" where
  "lab_key c = (case c of None \<Rightarrow> (True, []) | Some s \<Rightarrow> (False, s))"

text \<open>
  What pandas promises of \<open>sort_values\<close> with its default \<open>kind\<close>: the rows of the result
  are the rows of the table, ordered by the key (descending for the lots, ascending with
  the missing names last for the weekly table). Nothing is promised about rows with equal
  keys.
\<close>

definition sort_lots_ok :: "pandas \<Rightarrow> bool" where
  "sort_lots_ok pd =
     (\<forall>xs. mset (sort_lots pd xs) = mset xs \<and>
           sorted_wrt (\<lambda>a b. Total_Runs b \<le> Total_Runs a) (sort_lots pd xs))"

definition sort_weekly_ok :: "pandas \<Rightarrow> bool" where
  "sort_weekly_ok pd =
     (\<forall>xs. mset (sort_weekly pd xs) = mset xs \<and>
           sorted (map (\<lambda>r. lab_key (w_Lab_Name r)) (sort_weekly pd xs)))"

section \<open>A reference library for concrete runs\<close>

text \<open>
  To run the model on concrete inputs the parameters need values. The functions below follow
  pandas 2 on dates that are written in digits: dates of the proleptic Gregorian calendar,
  a timestamp counting the nanoseconds since 1970-01-01 in 64 bits, week numbers \<open>%U\<close> with
  Sunday as the first day of the week. With a format a text is matched against the format
  as \<open>strptime\<close> does; without a format a text is read as the numbers that it holds, three
  of a date or six of a date and a time (names of months, time zones and fractions of a
  second are not read).
\<close>

definition is_digit :: "char \<Rightarrow> bool" where
  "is_digit c = (CHR ''0'' \<le> c \<and> c \<le> CHR ''9'')"

definition digit_of :: "char \<Rightarrow> int" where
  "digit_of c = int (of_char c) - 48"

fun numbers_from :: "int option \<Rightarrow> string \<Rightarrow> int list" where
  "numbers_from None [] = []"
| "numbers_from (Some n) [] = [n]"
| "numbers_from acc (c # cs) =
     (if is_digit c
      then numbers_from (Some ((case acc of None \<Rightarrow> 0 | Some n \<Rightarrow> n) * 10 + digit_of c)) cs
      else (case acc of None \<Rightarrow> numbers_from None cs | Some n \<Rightarrow> n # numbers_from None cs))"

definition numbers :: "string \<Rightarrow> int list" where
  "numbers s = numbers_from None s"

definition pad2 :: "int \<Rightarrow> string" where
  "pad2 n = [char_of (48 + n div 10 mod 10), char_of (48 + n mod 10)]"

definition pad4 :: "int \<Rightarrow> string" where
  "pad4 n = pad2 (n div 100) @ pad2 (n mod 100)"

text \<open>Days since 1970-01-01 of a date, and back.\<close>

definition days_from_civil :: "int \<Rightarrow> int \<Rightarrow> int \<Rightarrow> int" where
  "days_from_civil y m d =
     (let y1 = (if m \<le> 2 then y - 1 else y);
          era = y1 div 400;
          yoe = y1 - era * 400;
          doy = (153 * (if m > 2 then m - 3 else m + 9) + 2) div 5 + d - 1;
          doe = yoe * 365 + yoe div 4 - yoe div 100 + doy
      in era * 146097 + doe - 719468)"

definition civil_from_days :: "int \<Rightarrow> int \<times> int \<times> int" where
  "civil_from_days z0 =
     (let z = z0 + 719468;
          era = z div 146097;
          doe = z - era * 146097;
          yoe = (doe - doe div 1460 + doe div 36524 - doe div 146096) div 365;
          doy = doe - (365 * yoe + yoe div 4 - yoe div 100);
          mp = (5 * doy + 2) div 153;
          d = doy - (153 * mp + 2) div 5 + 1;
          m = (if mp < 10 then mp + 3 else mp - 9)
      in (if m \<le> 2 then yoe + era * 400 + 1 else yoe + era * 400, m, d))"

definition ns_per_day :: int where
  "ns_per_day = 86400000000000"

definition days_in_month :: "int \<Rightarrow> int \<Rightarrow> int" where
  "days_in_month y m =
     (if m = 12 then 31 else days_from_civil y (m + 1) 1 - days_from_civil y m 1)"

text \<open>
  The timestamp of a date and a time of day; \<open>ValueError\<close> when there is no such day or
  when its nanoseconds do not fit 64 bits (\<open>OutOfBoundsDatetime\<close> is a \<open>ValueError\<close>).
\<close>

definition in_bounds :: "int \<Rightarrow> bool" where
  "in_bounds t = (- 9223372036854775808 < t \<and> t < 9223372036854775808)"

definition timestamp_of :: "int \<Rightarrow> int \<Rightarrow> int \<Rightarrow> int \<Rightarrow> int \<Rightarrow> int \<Rightarrow> py_error + timestamp" where
  "timestamp_of y m d hh mm ss =
     (if 1 \<le> m \<and> m \<le> 12 \<and> 1 \<le> d \<and> d \<le> days_in_month y m \<and> hh < 24 \<and> mm < 60 \<and> ss < 60 \<and>
         in_bounds (days_from_civil y m d * ns_per_day + ((hh * 60 + mm) * 60 + ss) * 1000000000)
      then Inr (days_from_civil y m d * ns_per_day + ((hh * 60 + mm) * 60 + ss) * 1000000000)
      else Inl ValueError)"

text \<open>Sunday is day 0 of the week; 1970-01-01 was a Thursday.\<close>

definition weekday_sun :: "int \<Rightarrow> int" where
  "weekday_sun days = (days + 4) mod 7"

text \<open>\<open>%U\<close>: the number of the week of the year, the weeks starting on Sunday; the days
  before the first Sunday are week 0.\<close>

definition week_U :: "int \<Rightarrow> int" where
  "week_U days =
     (let (y, m, d) = civil_from_days days;
          yday = days - days_from_civil y 1 1
      in (yday + 7 - weekday_sun days) div 7)"

text \<open>
  The day with week number \<open>w\<close> (\<open>%U\<close>) and weekday \<open>wd\<close> (\<open>%w\<close>) of year \<open>y\<close>. pandas
  computes the day of the year, \<open>julian\<close>; in week 0 it can be a day of the year before.
  Where it is \<open>-1\<close>, the value by which pandas marks a day of the year that is not known,
  pandas takes the first of January instead.
\<close>

definition day_of_week_U :: "int \<Rightarrow> int \<Rightarrow> int \<Rightarrow> int" where
  "day_of_week_U y w wd =
     (let jan1 = days_from_civil y 1 1;
          first_weekday = weekday_sun jan1;
          week_0_length = (7 - first_weekday) mod 7;
          julian = (if w = 0 then 1 + wd - first_weekday
                    else 1 + week_0_length + 7 * (w - 1) + wd)
      in if julian = - 1 then jan1 else jan1 + julian - 1)"

text \<open>
  The fields of a format, as the regular expressions of \<open>strptime\<close> have them: \<open>%Y\<close> is four
  digits; \<open>%m\<close>, \<open>%H\<close>, \<open>%M\<close>, \<open>%S\<close> and \<open>%U\<close> are one or two digits; \<open>%d\<close> is one or two
  digits or a blank and a digit; \<open>%w\<close> is one digit; a blank of the format is one or more
  white space characters. The ranges of the numbers are checked where the date is built.
\<close>

definition all_digits :: "string \<Rightarrow> bool" where
  "all_digits s = (s \<noteq> [] \<and> list_all is_digit s)"

definition number :: "string \<Rightarrow> int" where
  "number s = foldl (\<lambda>n c. n * 10 + digit_of c) 0 (filter is_digit s)"

definition field2 :: "string \<Rightarrow> bool" where
  "field2 s = (all_digits s \<and> length s \<le> 2)"

definition field_d :: "string \<Rightarrow> bool" where
  "field_d s = (field2 s \<or> (length s = 2 \<and> hd s = CHR '' '' \<and> is_digit (s ! 1)))"

definition field_Y :: "string \<Rightarrow> bool" where
  "field_Y s = (all_digits s \<and> length s = 4)"

definition is_space :: "char \<Rightarrow> bool" where
  "is_space c = (of_char c = (32 :: nat) \<or> 9 \<le> (of_char c :: nat) \<and> (of_char c :: nat) \<le> 13)"

text \<open>\<open>pd.to_datetime(s, format='%d-%m-%Y %H:%M:%S')\<close>\<close>

definition strptime_dmY_HMS :: "string \<Rightarrow> py_error + timestamp" where
  "strptime_dmY_HMS s =
     (case split CHR ''-'' s of
        [d, m, rest] \<Rightarrow>
          (case split CHR '':'' (dropWhile is_space (drop 4 rest)) of
             [hh, mm, ss] \<Rightarrow>
               if field_d d \<and> field2 m \<and> field_Y (take 4 rest) \<and>
                  takeWhile is_space (drop 4 rest) \<noteq> [] \<and> field2 hh \<and> field2 mm \<and> field2 ss
               then timestamp_of (number (take 4 rest)) (number m) (number d)
                      (number hh) (number mm) (number ss)
               else Inl ValueError
           | _ \<Rightarrow> Inl ValueError)
      | _ \<Rightarrow> Inl ValueError)"

text \<open>\<open>pd.to_datetime(s, format='%Y-%U-%w')\<close>, and with \<open>prefix = ''W''\<close> the format
  \<open>'%Y-W%U-%w'\<close>.\<close>

definition strptime_YUw :: "string \<Rightarrow> string \<Rightarrow> py_error + timestamp" where
  "strptime_YUw prefix s =
     (case split CHR ''-'' s of
        [y, u, w] \<Rightarrow>
          if field_Y y \<and> take (length prefix) u = prefix \<and> field2 (drop (length prefix) u) \<and>
             number u \<le> 53 \<and> all_digits w \<and> length w = 1 \<and> number w \<le> 6 \<and>
             in_bounds (day_of_week_U (number y) (number u) (number w) * ns_per_day)
          then Inr (day_of_week_U (number y) (number u) (number w) * ns_per_day)
          else Inl ValueError
      | _ \<Rightarrow> Inl ValueError)"

definition ref_to_datetime_format :: "string \<Rightarrow> string \<Rightarrow> py_error + timestamp" where
  "ref_to_datetime_format f s =
     (if f = ''%d-%m-%Y %H:%M:%S'' then strptime_dmY_HMS s
      else if f = ''%Y-%U-%w'' then strptime_YUw [] s
      else if f = ''%Y-W%U-%w'' then strptime_YUw ''W'' s
      else Inl ValueError)"

text \<open>Without a format the year comes first when the text starts with four digits;
  otherwise the month comes first, and the day comes first only where the first number
  cannot be a month.\<close>

definition ref_to_datetime :: "string \<Rightarrow> py_error + timestamp" where
  "ref_to_datetime s =
     (case numbers s of
        [a, b, c] \<Rightarrow>
          if 1000 \<le> a then timestamp_of a b c 0 0 0
          else if a \<le> 12 then timestamp_of c a b 0 0 0
          else timestamp_of c b a 0 0 0
      | [a, b, c, hh, mm, ss] \<Rightarrow>
          if 1000 \<le> a then timestamp_of a b c hh mm ss
          else if a \<le> 12 then timestamp_of c a b hh mm ss
          else timestamp_of c b a hh mm ss
      | _ \<Rightarrow> Inl ValueError)"

definition ref_to_datetime_coerce :: "string \<Rightarrow> timestamp option" where
  "ref_to_datetime_coerce s = (case ref_to_datetime s of Inl _ \<Rightarrow> None | Inr t \<Rightarrow> Some t)"

text \<open>
  \<open>pd.to_datetime(column, errors='coerce')\<close>. A column whose cells are all written in
  digits has been read as numbers by \<open>read_csv\<close>, and a number is the count of nanoseconds
  (numbers beside missing values are floating point numbers). Otherwise pandas 2 takes the
  order of the day, the month and the year from the first text of the column, where that
  text is a date, and reads every cell in this order, a date alone or a date with a time as
  the first text is; a cell that does not fit is \<open>NaT\<close>. Where the first text is no date
  every cell is read on its own.
\<close>

datatype date_order = YMD | MDY | DMY

definition order_of :: "int \<Rightarrow> date_order" where
  "order_of a = (if 1000 \<le> a then YMD else if a \<le> 12 then MDY else DMY)"

definition date_in_order ::
  "date_order \<Rightarrow> int \<Rightarrow> int \<Rightarrow> int \<Rightarrow> int \<Rightarrow> int \<Rightarrow> int \<Rightarrow> py_error + timestamp"
where
  "date_in_order ord a b c hh mm ss =
     (case ord of
        YMD \<Rightarrow> timestamp_of a b c hh mm ss
      | MDY \<Rightarrow> timestamp_of c a b hh mm ss
      | DMY \<Rightarrow> timestamp_of c b a hh mm ss)"

definition guess_order :: "string \<Rightarrow> (date_order \<times> nat) option" where
  "guess_order s =
     (case ref_to_datetime s of
        Inl _ \<Rightarrow> None
      | Inr _ \<Rightarrow> Some (order_of (hd (numbers s)), length (numbers s)))"

definition read_in_order :: "date_order \<times> nat \<Rightarrow> string \<Rightarrow> timestamp option" where
  "read_in_order fmt s =
     (if length (numbers s) \<noteq> snd fmt then None
      else (case (case numbers s of
                    [a, b, c] \<Rightarrow> date_in_order (fst fmt) a b c 0 0 0
                  | [a, b, c, hh, mm, ss] \<Rightarrow> date_in_order (fst fmt) a b c hh mm ss
                  | _ \<Rightarrow> Inl ValueError) of
              Inl _ \<Rightarrow> None
            | Inr t \<Rightarrow> Some t))"

definition ref_to_datetime_coerce_column :: "cell list \<Rightarrow> timestamp option list" where
  "ref_to_datetime_coerce_column cells =
     (let texts = map the (filter (\<lambda>c. c \<noteq> None) cells)
      in if texts = [] then map (\<lambda>c. None) cells
         else if list_all (\<lambda>s. all_digits s \<and> in_bounds (number s)) texts
         then map (map_option
                     (\<lambda>s. if length texts < length cells then \<lfloor>fl (of_int (number s))\<rfloor>
                          else number s)) cells
         else (case guess_order (hd texts) of
                 None \<Rightarrow> map (\<lambda>c. case c of None \<Rightarrow> None | Some s \<Rightarrow> ref_to_datetime_coerce s) cells
               | Some fmt \<Rightarrow>
                   map (\<lambda>c. case c of None \<Rightarrow> None | Some s \<Rightarrow> read_in_order fmt s) cells))"

definition ref_strftime :: "string \<Rightarrow> timestamp \<Rightarrow> string" where
  "ref_strftime f t =
     (let days = t div ns_per_day;
          (y, m, d) = civil_from_days days
      in if f = ''%Y-%m'' then pad4 y @ ''-'' @ pad2 m
         else if f = ''%Y-%U'' then pad4 y @ ''-'' @ pad2 (week_U days)
         else if f = ''%d-%m-%Y'' then pad2 d @ ''-'' @ pad2 m @ ''-'' @ pad4 y
         else f)"

text \<open>Stable sorts: what \<open>sort_values\<close> would do with \<open>kind='stable'\<close>.\<close>

definition sort_lots_stable :: "lot_row list \<Rightarrow> lot_row list" where
  "sort_lots_stable xs = rev (sort_key Total_Runs (rev xs))"

definition sort_weekly_stable :: "weekly_row list \<Rightarrow> weekly_row list" where
  "sort_weekly_stable xs = sort_key (\<lambda>r. lab_key (w_Lab_Name r)) xs"

definition ref_pandas :: pandas where
  "ref_pandas =
     \<lparr>to_datetime_format = ref_to_datetime_format,
      to_datetime = ref_to_datetime,
      to_datetime_coerce = ref_to_datetime_coerce,
      to_datetime_coerce_column = ref_to_datetime_coerce_column,
      strftime = ref_strftime,
      add_days = (\<lambda>t n. Inr (t + int n * ns_per_day)),
      astype_str = (\<lambda>c. case c of None \<Rightarrow> Some ''nan'' | Some s \<Rightarrow> Some s),
      sort_lots = sort_lots_stable,
      sort_weekly = sort_weekly_stable,
      sort_trend = sort_key t_Key\<rparr>"

subsection \<open>The default sort of numpy\<close>

text \<open>
  With no \<open>kind\<close>, \<open>sort_values\<close> on one column calls \<open>nargsort\<close> of pandas, which calls
  \<open>argsort(kind='quicksort')\<close> of numpy on the keys that are not missing. For a column of
  Python objects, and for a column of integers where numpy has no vectorised sort for the
  processor, that is the introsort \<open>aquicksort\<close> of numpy: it sorts the array \<open>tosort\<close> of
  positions \<open>pl .. pr\<close> by the keys \<open>v\<close>. A range with \<open>pr - pl\<close> of at most
  \<open>SMALL_QUICKSORT\<close> is sorted by insertion, a longer one is partitioned around the median
  of three keys, and a range that is reached after more than \<open>2 * npy_get_msb(num)\<close>
  partitions is sorted by \<open>aheapsort\<close>. The functions below follow the loops of numpy.
  \<open>SMALL_QUICKSORT\<close> is a constant of the source of numpy, 16 or, in other versions, 15; it
  is the parameter \<open>small\<close> here.
\<close>

text \<open>\<open>INTP_SWAP(tosort[i], tosort[j])\<close>\<close>

definition intp_swap :: "nat list \<Rightarrow> nat \<Rightarrow> nat \<Rightarrow> nat list" where
  "intp_swap tosort i j = tosort[i := tosort ! j, j := tosort ! i]"

text \<open>The insertion sort of the positions \<open>pl .. pr\<close>:
  \<open>while (pj > pl && v[vi] < v[*pk]) { *pj-- = *pk--; }\<close> and \<open>*pj = vi\<close>.\<close>

function ins_shift :: "'k::linorder list \<Rightarrow> nat list \<Rightarrow> 'k \<Rightarrow> nat \<Rightarrow> nat \<Rightarrow> nat list \<times> nat" where
  "ins_shift v tosort vp pl pj =
     (if pj > pl \<and> vp < v ! (tosort ! (pj - 1))
      then ins_shift v (tosort[pj := tosort ! (pj - 1)]) vp pl (pj - 1)
      else (tosort, pj))"
  by pat_completeness auto
termination by (relation "measure (\<lambda>(v, tosort, vp, pl, pj). pj)") auto

declare ins_shift.simps [simp del]

definition ins_step :: "'k::linorder list \<Rightarrow> nat \<Rightarrow> nat list \<Rightarrow> nat \<Rightarrow> nat list" where
  "ins_step v pl tosort p =
     (let vi = tosort ! p;
          r = ins_shift v tosort (v ! vi) pl p
      in (fst r)[snd r := vi])"

definition insertion_sort :: "'k::linorder list \<Rightarrow> nat list \<Rightarrow> nat \<Rightarrow> nat \<Rightarrow> nat list" where
  "insertion_sort v tosort pl pr = foldl (ins_step v pl) tosort [pl + 1 ..< pr + 1]"

text \<open>
  The two scans of the partition, \<open>do { ++pi; } while (v[*pi] < vp)\<close> and
  \<open>do { --pj; } while (vp < v[*pj])\<close>. In numpy nothing bounds them but the keys: the
  pivot stands at \<open>pr - 1\<close> and a key that is not greater at \<open>pl\<close>. The bounds \<open>hi\<close> and \<open>lo\<close>
  below are these two positions, where the scans of numpy stop at the latest.
\<close>

function scan_up :: "'k::linorder list \<Rightarrow> nat list \<Rightarrow> 'k \<Rightarrow> nat \<Rightarrow> nat \<Rightarrow> nat" where
  "scan_up v tosort vp p hi =
     (if p + 1 < hi \<and> v ! (tosort ! (p + 1)) < vp then scan_up v tosort vp (p + 1) hi else p + 1)"
  by pat_completeness auto
termination by (relation "measure (\<lambda>(v, tosort, vp, p, hi). hi - p)") auto

declare scan_up.simps [simp del]

function scan_down :: "'k::linorder list \<Rightarrow> nat list \<Rightarrow> 'k \<Rightarrow> nat \<Rightarrow> nat \<Rightarrow> nat" where
  "scan_down v tosort vp p lo =
     (if lo < p - 1 \<and> vp < v ! (tosort ! (p - 1)) then scan_down v tosort vp (p - 1) lo else p - 1)"
  by pat_completeness auto
termination by (relation "measure (\<lambda>(v, tosort, vp, p, lo). p)") auto

declare scan_down.simps [simp del]

text \<open>The loop \<open>for (;;)\<close> of the partition: scan, stop when the scans have met, swap.\<close>

function part_loop ::
  "'k::linorder list \<Rightarrow> 'k \<Rightarrow> nat \<Rightarrow> nat \<Rightarrow> nat list \<Rightarrow> nat \<Rightarrow> nat \<Rightarrow> nat list \<times> nat"
where
  "part_loop v vp lo hi tosort p q =
     (let p1 = scan_up v tosort vp p hi;
          q1 = scan_down v tosort vp q lo
      in if p1 \<ge> q1 then (tosort, p1) else part_loop v vp lo hi (intp_swap tosort p1 q1) p1 q1)"
  by pat_completeness auto
termination
proof (relation "measure (\<lambda>(v, vp, lo, hi, tosort, p, q). q - p)", goal_cases)
  case 1
  show ?case by simp
next
  case (2 v vp lo hi tosort p q p1 q1)
  have "p < scan_up v tosort vp p hi"
    by (induction v tosort vp p hi rule: scan_up.induct) (subst scan_up.simps, auto)
  moreover have "scan_down v tosort vp q lo \<le> q - 1"
    by (induction v tosort vp q lo rule: scan_down.induct) (subst scan_down.simps, auto)
  ultimately show ?case using 2 by auto
qed

declare part_loop.simps [simp del]

text \<open>One partition of the positions \<open>pl .. pr\<close>: the median of three goes to \<open>pr - 1\<close>, the
  loop runs, and the pivot goes to the place \<open>pi\<close> where the scans met. The result is the
  array and \<open>pi\<close>.\<close>

definition partition_range :: "'k::linorder list \<Rightarrow> nat list \<Rightarrow> nat \<Rightarrow> nat \<Rightarrow> nat list \<times> nat" where
  "partition_range v tosort pl pr =
     (let pm = pl + (pr - pl) div 2;
          t1 = (if v ! (tosort ! pm) < v ! (tosort ! pl) then intp_swap tosort pm pl else tosort);
          t2 = (if v ! (t1 ! pr) < v ! (t1 ! pm) then intp_swap t1 pr pm else t1);
          t3 = (if v ! (t2 ! pm) < v ! (t2 ! pl) then intp_swap t2 pm pl else t2);
          vp = v ! (t3 ! pm);
          t4 = intp_swap t3 pm (pr - 1);
          r = part_loop v vp pl (pr - 1) t4 pl (pr - 1)
      in (intp_swap (fst r) (snd r) (pr - 1), snd r))"

text \<open>
  \<open>aheapsort\<close> on the \<open>n\<close> positions from \<open>pl\<close>; \<open>a[k]\<close> of numpy, which counts from 1, is
  the position \<open>pl + k - 1\<close>.
\<close>

function sift_down ::
  "'k::linorder list \<Rightarrow> nat \<Rightarrow> nat \<Rightarrow> nat list \<Rightarrow> nat \<Rightarrow> nat \<Rightarrow> nat \<Rightarrow> nat list"
where
  "sift_down v pl n a tmp i j =
     (if 0 < j \<and> j \<le> n
      then (let j1 = (if j < n \<and> v ! (a ! (pl + j - 1)) < v ! (a ! (pl + j)) then j + 1 else j)
            in if v ! tmp < v ! (a ! (pl + j1 - 1))
               then sift_down v pl n (a[pl + i - 1 := a ! (pl + j1 - 1)]) tmp j1 (j1 + j1)
               else a[pl + i - 1 := tmp])
      else a[pl + i - 1 := tmp])"
  by pat_completeness auto
termination by (relation "measure (\<lambda>(v, pl, n, a, tmp, i, j). n + 1 - j)") auto

declare sift_down.simps [simp del]

definition heapify :: "'k::linorder list \<Rightarrow> nat \<Rightarrow> nat \<Rightarrow> nat list \<Rightarrow> nat list" where
  "heapify v pl n a =
     foldl (\<lambda>a l. sift_down v pl n a (a ! (pl + l - 1)) l (l + l)) a (rev [1 ..< n div 2 + 1])"

function heap_extract :: "'k::linorder list \<Rightarrow> nat \<Rightarrow> nat list \<Rightarrow> nat \<Rightarrow> nat list" where
  "heap_extract v pl a n =
     (if n > 1
      then (let tmp = a ! (pl + n - 1);
                a1 = a[pl + n - 1 := a ! pl]
            in heap_extract v pl (sift_down v pl (n - 1) a1 tmp 1 2) (n - 1))
      else a)"
  by pat_completeness auto
termination by (relation "measure (\<lambda>(v, pl, a, n). n)") auto

declare heap_extract.simps [simp del]

definition aheapsort :: "'k::linorder list \<Rightarrow> nat list \<Rightarrow> nat \<Rightarrow> nat \<Rightarrow> nat list" where
  "aheapsort v tosort pl n = heap_extract v pl (heapify v pl n tosort) n"

text \<open>
  The loop of \<open>aquicksort\<close> on the positions \<open>pl .. pr\<close>. numpy pushes the larger part of a
  partition on a stack and goes on with the smaller one; here the smaller part is sorted by
  the inner call and the larger part after it, as the stack has it. Both parts get the
  depth \<open>cdepth - 1\<close>; the depth is tested where a part is taken from the stack.
\<close>

function aquicksort_range ::
  "nat \<Rightarrow> 'k::linorder list \<Rightarrow> nat list \<Rightarrow> nat \<Rightarrow> nat \<Rightarrow> int \<Rightarrow> nat list"
where
  "aquicksort_range small v tosort pl pr cdepth =
     (if pr - pl > small
      then (let r = partition_range v tosort pl pr;
                p = snd r
            in if p - pl < pr - p
               then (let t2 = aquicksort_range small v (fst r) pl (p - 1) (cdepth - 1)
                     in if cdepth - 1 < 0 then aheapsort v t2 (p + 1) (pr - p)
                        else aquicksort_range small v t2 (p + 1) pr (cdepth - 1))
               else (let t2 = aquicksort_range small v (fst r) (p + 1) pr (cdepth - 1)
                     in if cdepth - 1 < 0 then aheapsort v t2 pl (p - pl)
                        else aquicksort_range small v t2 pl (p - 1) (cdepth - 1)))
      else insertion_sort v tosort pl pr)"
  by pat_completeness auto
termination
proof -
  have up_gt: "p < scan_up v t vp p hi" for v :: "'k::linorder list" and t vp p hi
    by (induction v t vp p hi rule: scan_up.induct) (subst scan_up.simps, auto)
  have up_le: "scan_up v t vp p hi \<le> max (p + 1) hi" for v :: "'k::linorder list" and t vp p hi
    by (induction v t vp p hi rule: scan_up.induct) (subst scan_up.simps, auto)
  have down_le: "scan_down v t vp q lo \<le> q - 1" for v :: "'k::linorder list" and t vp q lo
    by (induction v t vp q lo rule: scan_down.induct) (subst scan_down.simps, auto)
  have loop: "q \<le> hi \<Longrightarrow>
      p < snd (part_loop v vp lo hi t p q) \<and> snd (part_loop v vp lo hi t p q) \<le> max (p + 1) hi"
    for v :: "'k::linorder list" and vp lo hi t p q
  proof (induction v vp lo hi t p q rule: part_loop.induct)
    case (1 v vp lo hi t p q)
    let ?p1 = "scan_up v t vp p hi"
    let ?q1 = "scan_down v t vp q lo"
    have a: "p < ?p1" by (rule up_gt)
    have b: "?p1 \<le> max (p + 1) hi" by (rule up_le)
    have c: "?q1 \<le> q - 1" by (rule down_le)
    show ?case
    proof (cases "?p1 \<ge> ?q1")
      case True
      then show ?thesis using a b by (subst (1 2) part_loop.simps) (simp add: Let_def)
    next
      case False
      then have d: "?q1 \<le> hi" "?p1 + 1 \<le> hi" using c 1(2) by simp_all
      from 1(1) [OF refl refl False d(1)]
      have "?p1 < snd (part_loop v vp lo hi (intp_swap t ?p1 ?q1) ?p1 ?q1) \<and>
            snd (part_loop v vp lo hi (intp_swap t ?p1 ?q1) ?p1 ?q1) \<le> max (?p1 + 1) hi" .
      with d(2) a have "p < snd (part_loop v vp lo hi (intp_swap t ?p1 ?q1) ?p1 ?q1) \<and>
            snd (part_loop v vp lo hi (intp_swap t ?p1 ?q1) ?p1 ?q1) \<le> max (p + 1) hi"
        by simp
      then show ?thesis using False by (subst (1 2) part_loop.simps) (simp add: Let_def)
    qed
  qed
  have bounds: "pl < snd (partition_range v t pl pr) \<and> snd (partition_range v t pl pr) \<le> pr"
    if "pl < pr" for v :: "'k::linorder list" and t pl pr
  proof -
    have b: "pl < snd (part_loop v vp pl (pr - 1) t4 pl (pr - 1)) \<and>
             snd (part_loop v vp pl (pr - 1) t4 pl (pr - 1)) \<le> pr" for vp t4
      using loop [OF order_refl, of pl v vp pl "pr - 1" t4] that by auto
    show ?thesis unfolding partition_range_def Let_def snd_conv by (rule b)
  qed
  show ?thesis
  proof (relation "measure (\<lambda>(small, v, tosort, pl, pr, cdepth). pr - pl)", goal_cases)
    case 1
    show ?case by simp
  next
    case (2 small v tosort pl pr cdepth r p)
    then have "pl < pr" by simp
    from bounds [OF this, of v tosort] 2 show ?case by (simp, arith?)
  next
    case (3 small v tosort pl pr cdepth r p t2)
    then have "pl < pr" by simp
    from bounds [OF this, of v tosort] 3 show ?case by (simp, arith?)
  next
    case (4 small v tosort pl pr cdepth r p)
    then have "pl < pr" by simp
    from bounds [OF this, of v tosort] 4 show ?case by (simp, arith?)
  next
    case (5 small v tosort pl pr cdepth r p t2)
    then have "pl < pr" by simp
    from bounds [OF this, of v tosort] 5 show ?case by (simp, arith?)
  qed
qed

declare aquicksort_range.simps [simp del]

text \<open>\<open>npy_get_msb(unum)\<close>: \<open>while (unum >>= 1) depth_limit++\<close>.\<close>

function npy_get_msb :: "nat \<Rightarrow> nat" where
  "npy_get_msb unum = (if unum div 2 = 0 then 0 else npy_get_msb (unum div 2) + 1)"
  by pat_completeness auto
termination by (relation "measure id") auto

declare npy_get_msb.simps [simp del]

text \<open>\<open>argsort(kind='quicksort')\<close> of the keys \<open>v\<close>: the positions \<open>0 .. num - 1\<close>, sorted.\<close>

definition aquicksort :: "nat \<Rightarrow> 'k::linorder list \<Rightarrow> nat list" where
  "aquicksort small v =
     (let num = length v
      in if num = 0 then []
         else aquicksort_range small v [0 ..< num] 0 (num - 1) (int (npy_get_msb num) * 2))"

text \<open>
  \<open>nargsort(items, kind='quicksort', ascending, na_position='last')\<close> of pandas: the
  positions of the keys that are not missing are sorted by numpy and the positions of the
  missing keys follow them. For a descending order pandas reverses the keys before the sort
  and the result after it.
\<close>

definition nargsort :: "nat \<Rightarrow> 'k::linorder option list \<Rightarrow> bool \<Rightarrow> nat list" where
  "nargsort small items ascending =
     (let idx = [0 ..< length items];
          non_nan_idx0 = filter (\<lambda>i. items ! i \<noteq> None) idx;
          nan_idx = filter (\<lambda>i. items ! i = None) idx;
          non_nan_idx = (if ascending then non_nan_idx0 else rev non_nan_idx0);
          non_nans = map (\<lambda>i. the (items ! i)) non_nan_idx;
          indexer0 = map (\<lambda>i. non_nan_idx ! i) (aquicksort small non_nans);
          indexer = (if ascending then indexer0 else rev indexer0)
      in indexer @ nan_idx)"

text \<open>The library with these sorts: pandas 2 on the sorts of numpy that are not
  vectorised.\<close>

definition numpy_pandas :: "nat \<Rightarrow> pandas" where
  "numpy_pandas small =
     ref_pandas
       \<lparr>sort_lots :=
          (\<lambda>xs. map (\<lambda>i. xs ! i) (nargsort small (map (\<lambda>r. Some (Total_Runs r)) xs) False)),
        sort_weekly := (\<lambda>xs. map (\<lambda>i. xs ! i) (nargsort small (map w_Lab_Name xs) True))\<rparr>"

section \<open>Concrete inputs\<close>

text \<open>
  The scenario of three records: two invalid runs of lab A on lot L1 and one valid run of
  lab B on lot L2, all of profile P1 in January 2024.
\<close>

definition scenario_df :: dataframe where
  "scenario_df =
     [\<lparr>Test_date_time = Some 1705312800000000000, Profile_id = Some ''P1'',
       Test_result = Some ''Detected'', Test_status = Some ''Invalid'', Lab_name = Some ''A'',
       Truelab_id = Some ''T1'', Lot = Some ''L1'', Month = ''2024-01'', Week = ''2024-02''\<rparr>,
      \<lparr>Test_date_time = Some 1705399200000000000, Profile_id = Some ''P1'',
       Test_result = Some ''Not Detected'', Test_status = Some ''Invalid'', Lab_name = Some ''A'',
       Truelab_id = Some ''T1'', Lot = Some ''L1'', Month = ''2024-01'', Week = ''2024-02''\<rparr>,
      \<lparr>Test_date_time = Some 1705485600000000000, Profile_id = Some ''P1'',
       Test_result = Some ''Detected'', Test_status = Some ''Valid'', Lab_name = Some ''B'',
       Truelab_id = Some ''T2'', Lot = Some ''L2'', Month = ''2024-01'', Week = ''2024-02''\<rparr>]"


text \<open>A session that holds the scenario and has not yet called \<open>profile_id_analysis\<close>.\<close>

definition fresh_session :: app_state where
  "fresh_session = \<lparr>session_state_data = Some scenario_df, lru_cache = []\<rparr>"

text \<open>A session without data, and a session that holds the scenario and a cache entry
  of an earlier call.\<close>

definition empty_session :: app_state where
  "empty_session = \<lparr>session_state_data = None, lru_cache = []\<rparr>"

definition used_session :: app_state where
  "used_session =
     \<lparr>session_state_data = Some scenario_df,
      lru_cache = [((Some 8, Some ''P9''), (None, None))]\<rparr>"

text \<open>
  Twenty lots with one run each, a minute apart, and one lab with one run in each of twenty
  weeks, a week apart from the 8th of January 2024 on, with the keys \<open>%Y-%m\<close> and \<open>%Y-%U\<close> of
  these days.
\<close>

definition tied_lots_df :: dataframe where
  "tied_lots_df =
     map (\<lambda>i. \<lparr>Test_date_time = Some (1705312800000000000 + int i * 60000000000),
                Profile_id = Some ''P1'', Test_result = Some ''Detected'',
                Test_status = Some ''Valid'', Lab_name = Some ''A'', Truelab_id = Some ''T1'',
                Lot = Some (''L'' @ pad2 (int i)), Month = ''2024-01'', Week = ''2024-02''\<rparr>)
       [1 ..< 21]"

definition twenty_weeks_df :: dataframe where
  "twenty_weeks_df =
     map (\<lambda>(i, month).
            \<lparr>Test_date_time = Some (1704708000000000000 + int i * 604800000000000),
             Profile_id = Some ''P1'', Test_result = Some ''Detected'',
             Test_status = Some ''Valid'', Lab_name = Some ''A'', Truelab_id = Some ''T1'',
             Lot = Some ''L1'', Month = month, Week = ''2024-'' @ pad2 (int i + 1)\<rparr>)
       (zip [0 ..< 20]
          (replicate 4 ''2024-01'' @ replicate 4 ''2024-02'' @ replicate 4 ''2024-03'' @
           replicate 5 ''2024-04'' @ replicate 3 ''2024-05''))"

text \<open>One lab with a run in each of two weeks.\<close>

definition two_weeks_df :: dataframe where
  "two_weeks_df =
     [\<lparr>Test_date_time = Some 1704708000000000000, Profile_id = Some ''P1'',
       Test_result = Some ''Detected'', Test_status = Some ''Valid'', Lab_name = Some ''A'',
       Truelab_id = Some ''T1'', Lot = Some ''L1'', Month = ''2024-01'', Week = ''2024-01''\<rparr>,
      \<lparr>Test_date_time = Some 1705312800000000000, Profile_id = Some ''P1'',
       Test_result = Some ''Detected'', Test_status = Some ''Valid'', Lab_name = Some ''A'',
       Truelab_id = Some ''T1'', Lot = Some ''L1'', Month = ''2024-01'', Week = ''2024-02''\<rparr>]"

text \<open>
  A library whose \<open>astype(str)\<close> keeps a missing value, as pandas 3 does, and a data frame
  of one record without a device id.
\<close>

definition na_keeping_pandas :: pandas where
  "na_keeping_pandas = ref_pandas\<lparr>astype_str := (\<lambda>c. c)\<rparr>"

definition missing_device_df :: dataframe where
  "missing_device_df =
     [\<lparr>Test_date_time = Some 1705312800000000000, Profile_id = Some ''P1'',
       Test_result = Some ''Detected'', Test_status = Some ''Invalid'', Lab_name = Some ''A'',
       Truelab_id = None, Lot = Some ''L1'', Month = ''2024-01'', Week = ''2024-02''\<rparr>]"

text \<open>
  Uploaded files: a file with a header line and ten columns that holds the scenario and a
  row whose time is not a date; a file that pandas cannot read; a file of six columns; a
  file whose only row has a date that can be read with the day or the month first.
\<close>

definition header10 :: "label list" where
  "header10 = map Name [''Date'', ''Profile'', ''Sample'', ''Result'', ''Status'', ''Lab'',
     ''Operator'', ''Chip'', ''Device'', ''Lot'']"

definition scenario_file :: uploaded_file where
  "scenario_file =
     \<lparr>read_csv = Inr \<lparr>frame_columns = header10,
        frame_values =
          [[Some ''15-01-2024 10:00:00'', Some ''P1'', Some ''S1'', Some ''Detected'', Some ''Invalid'',
            Some ''A'', Some ''O1'', Some ''C1'', Some ''T1'', Some ''L1''],
           [Some ''not-a-date'', Some ''P1'', Some ''S2'', Some ''Detected'', Some ''Invalid'',
            Some ''A'', Some ''O1'', Some ''C2'', Some ''T1'', Some ''L1''],
           [Some ''16-01-2024 10:00:00'', Some ''P1'', Some ''S3'', Some ''Not Detected'', Some ''Invalid'',
            Some ''A'', Some ''O1'', Some ''C3'', Some ''T1'', Some ''L1''],
           [Some ''17-01-2024 10:00:00'', Some ''P1'', Some ''S4'', Some ''Detected'', Some ''Valid'',
            Some ''B'', Some ''O2'', Some ''C4'', Some ''T2'', Some ''L2'']]\<rparr>,
      read_csv_header_none = Inl EmptyDataError\<rparr>"

definition unreadable_file :: uploaded_file where
  "unreadable_file = \<lparr>read_csv = Inl ParserError, read_csv_header_none = Inl ParserError\<rparr>"

definition narrow_file :: uploaded_file where
  "narrow_file =
     \<lparr>read_csv = Inr \<lparr>frame_columns = take 6 header10,
        frame_values =
          [[Some ''15-01-2024 10:00:00'', Some ''P1'', Some ''S1'', Some ''Detected'', Some ''Invalid'',
            Some ''A'']]\<rparr>,
      read_csv_header_none = Inl EmptyDataError\<rparr>"

definition ambiguous_date_file :: uploaded_file where
  "ambiguous_date_file =
     \<lparr>read_csv = Inr \<lparr>frame_columns = header10,
        frame_values =
          [[Some ''01-02-2024 10:00:00'', Some ''P1'', Some ''S1'', Some ''Detected'', Some ''Valid'',
            Some ''A'', Some ''O1'', Some ''C1'', Some ''T1'', Some ''L1'']]\<rparr>,
      read_csv_header_none = Inl EmptyDataError\<rparr>"


section \<open>Properties\<close>

subsection \<open>Lists, filters and groups\<close>

lemma unique_Nil_iff [simp]: "unique xs = [] \<longleftrightarrow> xs = []"
  by (cases xs) simp_all

lemma set_unique [simp]: "set (unique xs) = set xs"
proof (induction xs rule: unique.induct)
  case 1
  show ?case by simp
next
  case (2 x xs)
  then show ?case by auto
qed

lemma distinct_unique [simp]: "distinct (unique xs)"
proof (induction xs rule: unique.induct)
  case 1
  show ?case by simp
next
  case (2 x xs)
  then show ?case by simp
qed

lemma sequence_err_length: "sequence_err xs = Inr vs \<Longrightarrow> length vs = length xs"
  by (induction xs arbitrary: vs) (auto split: sum.splits)

lemma sequence_err_all_Inr:
  "(\<And>x. x \<in> set xs \<Longrightarrow> \<exists>v. x = Inr v) \<Longrightarrow> \<exists>vs. sequence_err xs = Inr vs"
proof (induction xs)
  case Nil
  show ?case by simp
next
  case (Cons x xs)
  from Cons.prems obtain v where "x = Inr v" by auto
  moreover from Cons obtain vs where "sequence_err xs = Inr vs" by auto
  ultimately show ?case by simp
qed

lemma filter_profile_Nil [simp]: "filter_profile p [] = []"
  by (simp add: filter_profile_def split: option.splits)

lemma filter_lab_Nil [simp]: "filter_lab l [] = []"
  by (simp add: filter_lab_def split: option.splits)

lemma filter_lab_None [simp]: "filter_lab None df = df"
  by (simp add: filter_lab_def)

lemma sort_Nil_iff [simp]: "sort xs = [] \<longleftrightarrow> xs = []"
  by (metis length_sort length_0_conv)

lemma groupby_agg_Nil_iff [simp]: "groupby_agg key df = [] \<longleftrightarrow> df = []"
  by (simp add: groupby_agg_def)

lemma filtered_ne:
  assumes "filtered df p l \<noteq> []"
  obtains df0 where "df = Some df0" and "df0 \<noteq> []" and "filter_profile p df0 \<noteq> []"
    and "filter_lab l (filter_profile p df0) \<noteq> []"
proof (cases df)
  case None
  with assms show ?thesis by (simp add: filtered_def)
next
  case (Some df0)
  with assms have f: "filter_lab l (filter_profile p df0) \<noteq> []" by (simp add: filtered_def)
  then have "filter_profile p df0 \<noteq> []" by (cases "filter_profile p df0 = []") simp_all
  moreover from this have "df0 \<noteq> []" by (cases "df0 = []") simp_all
  ultimately show ?thesis using that Some f by blast
qed

lemma length_groupby_agg: "length (groupby_agg key df) = length (unique (map key df))"
  by (simp add: groupby_agg_def)

lemma convert_keys_length: "convert_keys conv tbl = Inr t \<Longrightarrow> length t = length tbl"
  by (auto simp: convert_keys_def dest: sequence_err_length)

lemma map_t_Key_groupby_agg: "map t_Key (groupby_agg key df) = sort (unique (map key df))"
  by (simp add: groupby_agg_def group_row_def Let_def comp_def)

lemma t_Key_groupby_agg: "t_Key ` set (groupby_agg key df) = key ` set df"
proof -
  have "t_Key ` set (groupby_agg key df) = set (map t_Key (groupby_agg key df))" by simp
  also have "\<dots> = key ` set df" unfolding map_t_Key_groupby_agg by simp
  finally show ?thesis .
qed

lemma convert_keys_ok:
  assumes "\<And>r. r \<in> set df \<Longrightarrow> \<exists>d. conv (key r) = Inr d"
  shows "\<exists>t. convert_keys conv (groupby_agg key df) = Inr t"
proof -
  have "\<exists>v. x = Inr v"
    if "x \<in> set (map (\<lambda>r. case conv (t_Key r) of
                               Inl e \<Rightarrow> Inl e
                             | Inr d \<Rightarrow> Inr \<lparr>t_Key = d, t_Total_Runs = t_Total_Runs r,
                                             t_Total_Invalid = t_Total_Invalid r,
                                             t_Total_Indeterminate = t_Total_Indeterminate r,
                                             t_Total_Invalid_Indeterminate =
                                               t_Total_Invalid_Indeterminate r\<rparr>) (groupby_agg key df))" for x
  proof -
    from that obtain g where g: "g \<in> set (groupby_agg key df)"
      and x: "x = (case conv (t_Key g) of
                               Inl e \<Rightarrow> Inl e
                             | Inr d \<Rightarrow> Inr \<lparr>t_Key = d, t_Total_Runs = t_Total_Runs g,
                                             t_Total_Invalid = t_Total_Invalid g,
                                             t_Total_Indeterminate = t_Total_Indeterminate g,
                                             t_Total_Invalid_Indeterminate =
                                               t_Total_Invalid_Indeterminate g\<rparr>)"
      by auto
    from g have "t_Key g \<in> key ` set df" using t_Key_groupby_agg by blast
    then obtain r where "r \<in> set df" "t_Key g = key r" by auto
    with assms obtain d where "conv (t_Key g) = Inr d" by metis
    with x show ?thesis by simp
  qed
  then show ?thesis unfolding convert_keys_def by (rule sequence_err_all_Inr)
qed

lemma sequence_err_map_Inr:
  "(\<And>x. x \<in> set xs \<Longrightarrow> \<exists>v. f x = Inr v) \<Longrightarrow> \<exists>vs. sequence_err (map f xs) = Inr vs"
  by (rule sequence_err_all_Inr) auto

lemma sequence_err_map_Inr_id [simp]: "sequence_err (map Inr vs) = Inr vs"
  by (induction vs) simp_all

lemma sequence_err_Inr_iff: "sequence_err xs = Inr vs \<longleftrightarrow> xs = map Inr vs"
proof
  show "sequence_err xs = Inr vs \<Longrightarrow> xs = map Inr vs"
    by (induction xs arbitrary: vs) (auto split: sum.splits)
qed simp

subsection \<open>The percentage never divides by zero\<close>

lemma fl_0 [simp]: "fl 0 = 0"
  by (simp add: fl_def)

lemma py_round_0 [simp]: "py_round 0 n = 0"
  by (simp add: py_round_def round_half_even_def)

lemma float_mul_0 [simp]: "float_mul 0 x = 0"
  by (simp add: float_mul_def)

lemma np_round_0 [simp]: "np_round 0 n = 0"
  by (simp add: np_round_def round_half_even_def)

lemma invalid_rate_Inr [simp]:
  "invalid_rate i d n = Inr (if n > 0 then float_mul (fl (of_nat (i + d) / of_nat n)) 100 else 0)"
  by (simp add: invalid_rate_def int_truediv_def)

lemma lot_data_row_Inr: "\<exists>r. lot_data_row df k = Inr r"
  by (simp add: lot_data_row_def Let_def)

lemma overall_summary_Inr: "\<exists>s. overall_summary df = Inr s"
  by (simp add: overall_summary_def Let_def)

lemma lot_rows_Inr: "\<exists>rows. sequence_err (map (lot_data_row df) ks) = Inr rows"
  by (rule sequence_err_map_Inr) (rule lot_data_row_Inr)

subsection \<open>The trend tables\<close>

text \<open>
  C9. The trend analysis returns its monthly and its weekly table together. When the data
  frame is empty after the filters both are the empty signal \<open>None\<close>. Otherwise the
  function returns both tables, the monthly one with a row for each month key and the
  weekly one with a row for each week key of the selection, so neither is empty; it returns
  them whenever the keys of the selection convert to dates (if a key does not convert the
  conversion raises and the function returns no table at all). The only fact used about the
  library is that sorting keeps the number of rows.
\<close>

theorem trend_tables_together:
  assumes "\<forall>xs. length (sort_trend pd xs) = length xs"
  shows "(filtered df p l = [] \<longrightarrow> trend_analysis pd df p l = Inr (None, None)) \<and>
         (filtered df p l \<noteq> [] \<longrightarrow>
            (\<exists>e. trend_analysis pd df p l = Inl e) \<or>
            (\<exists>ms ws. trend_analysis pd df p l = Inr (Some ms, Some ws) \<and>
               length ms = length (unique (map Month (filtered df p l))) \<and> ms \<noteq> [] \<and>
               length ws = length (unique (map Week (filtered df p l))) \<and> ws \<noteq> [])) \<and>
         (filtered df p l \<noteq> [] \<and>
          (\<forall>r \<in> set (filtered df p l). \<exists>d. month_to_date pd (Month r) = Inr d) \<and>
          (\<forall>r \<in> set (filtered df p l). \<exists>d. week_to_date pd (Week r) = Inr d) \<longrightarrow>
            (\<exists>ms ws. trend_analysis pd df p l = Inr (Some ms, Some ws)))"
proof (intro conjI impI)
  assume "filtered df p l = []"
  then show "trend_analysis pd df p l = Inr (None, None)"
    by (auto simp: filtered_def trend_analysis_def Let_def split: option.splits)
next
  assume ne: "filtered df p l \<noteq> []"
  then obtain df0 where df: "df = Some df0" and df0: "df0 \<noteq> []"
    and f: "filter_lab l (filter_profile p df0) \<noteq> []"
    by (auto elim: filtered_ne)
  let ?f = "filter_lab l (filter_profile p df0)"
  have fl: "filtered df p l = ?f" by (simp add: filtered_def df)
  show "(\<exists>e. trend_analysis pd df p l = Inl e) \<or>
            (\<exists>ms ws. trend_analysis pd df p l = Inr (Some ms, Some ws) \<and>
               length ms = length (unique (map Month (filtered df p l))) \<and> ms \<noteq> [] \<and>
               length ws = length (unique (map Week (filtered df p l))) \<and> ws \<noteq> [])"
  proof (cases "convert_keys (month_to_date pd) (groupby_agg Month ?f)")
    case (Inl e)
    then show ?thesis using df df0 f by (simp add: trend_analysis_def Let_def)
  next
    case m: (Inr monthly_data)
    show ?thesis
    proof (cases "convert_keys (week_to_date pd) (groupby_agg Week ?f)")
      case (Inl e)
      then show ?thesis using m df df0 f by (simp add: trend_analysis_def Let_def)
    next
      case w: (Inr weekly_data)
      have lm: "length monthly_data = length (unique (map Month ?f))"
        using convert_keys_length [OF m] by (simp add: length_groupby_agg)
      have lw: "length weekly_data = length (unique (map Week ?f))"
        using convert_keys_length [OF w] by (simp add: length_groupby_agg)
      have nm: "unique (map Month ?f) \<noteq> []" and nw: "unique (map Week ?f) \<noteq> []"
        using f by simp_all
      have "trend_analysis pd df p l =
              Inr (Some (sort_trend pd monthly_data), Some (sort_trend pd weekly_data))"
        using m w df df0 f by (simp add: trend_analysis_def Let_def)
      moreover have "length (sort_trend pd monthly_data) = length (unique (map Month ?f))"
        using assms lm by simp
      moreover have "length (sort_trend pd weekly_data) = length (unique (map Week ?f))"
        using assms lw by simp
      ultimately show ?thesis using nm nw unfolding fl
        by (metis length_0_conv)
    qed
  qed
next
  assume a: "filtered df p l \<noteq> [] \<and>
          (\<forall>r \<in> set (filtered df p l). \<exists>d. month_to_date pd (Month r) = Inr d) \<and>
          (\<forall>r \<in> set (filtered df p l). \<exists>d. week_to_date pd (Week r) = Inr d)"
  then obtain df0 where df: "df = Some df0" and df0: "df0 \<noteq> []"
    and f: "filter_lab l (filter_profile p df0) \<noteq> []"
    by (auto elim: filtered_ne)
  let ?f = "filter_lab l (filter_profile p df0)"
  have fl: "filtered df p l = ?f" by (simp add: filtered_def df)
  from a fl obtain m where m: "convert_keys (month_to_date pd) (groupby_agg Month ?f) = Inr m"
    using convert_keys_ok [of ?f "month_to_date pd" Month] by auto
  from a fl obtain w where w: "convert_keys (week_to_date pd) (groupby_agg Week ?f) = Inr w"
    using convert_keys_ok [of ?f "week_to_date pd" Week] by auto
  show "\<exists>ms ws. trend_analysis pd df p l = Inr (Some ms, Some ws)"
    using m w df df0 f by (simp add: trend_analysis_def Let_def)
qed

theorem trend_tables_together_witness:
  "filtered (Some scenario_df) None None \<noteq> [] \<and>
   (\<exists>ms ws. trend_analysis ref_pandas (Some scenario_df) None None = Inr (Some ms, Some ws) \<and>
      length ms = 1 \<and> length ws = 1)"
proof -
  have h: "\<forall>xs. length (sort_trend ref_pandas xs) = length xs"
    by (simp add: ref_pandas_def)
  have f: "filtered (Some scenario_df) None None = scenario_df"
    by (simp add: filtered_def filter_profile_def)
  have ne: "scenario_df \<noteq> []"
    by (simp add: scenario_df_def)
  have um: "unique (map Month scenario_df) = [''2024-01'']"
    by (simp add: scenario_df_def)
  have uw: "unique (map Week scenario_df) = [''2024-02'']"
    by (simp add: scenario_df_def)
  have m: "month_to_date ref_pandas ''2024-01'' = Inr 1704067200000000000"
    by code_simp
  have w: "week_to_date ref_pandas ''2024-02'' = Inr 1705276800000000000"
    by code_simp
  have cm: "\<forall>r \<in> set (filtered (Some scenario_df) None None).
              \<exists>d. month_to_date ref_pandas (Month r) = Inr d"
    unfolding f by (simp add: scenario_df_def m)
  have cw: "\<forall>r \<in> set (filtered (Some scenario_df) None None).
              \<exists>d. week_to_date ref_pandas (Week r) = Inr d"
    unfolding f by (simp add: scenario_df_def w)
  from trend_tables_together [OF h, of "Some scenario_df" None None] f ne um uw cm cw
  show ?thesis by auto
qed

subsection \<open>Empty selections\<close>


lemma profile_id_analysis_keeps_coherent:
  assumes "cache_coherent pd st"
  shows "cache_coherent pd (snd (profile_id_analysis pd st df_hash p))"
    and "session_state_data (snd (profile_id_analysis pd st df_hash p)) = session_state_data st"
proof -
  show "session_state_data (snd (profile_id_analysis pd st df_hash p)) = session_state_data st"
    by (simp add: profile_id_analysis_def Let_def split: option.splits sum.splits)
  show "cache_coherent pd (snd (profile_id_analysis pd st df_hash p))"
  proof (cases "map_of (lru_cache st) (df_hash, p)")
    case None
    have "set (take 32 xs) \<subseteq> set xs" for xs :: "((int option \<times> string option) \<times> profile_result) list"
      by (rule set_take_subset)
    with assms None show ?thesis
      by (auto simp: profile_id_analysis_def Let_def cache_coherent_def list_all_iff
          split: sum.splits dest!: in_set_takeD)
  next
    case (Some result)
    then have "((df_hash, p), result) \<in> set (lru_cache st)" by (rule map_of_SomeD)
    with assms Some show ?thesis
      by (auto simp: profile_id_analysis_def Let_def cache_coherent_def list_all_iff)
  qed
qed


lemma filtered_lot_empty:
  "filtered df p None = [] \<Longrightarrow> lot_specific_analysis pd df p = Inr (None, None)"
  by (auto simp: filtered_def lot_specific_analysis_def Let_def split: option.splits)

lemma filtered_body_empty:
  "filtered df p None = [] \<Longrightarrow> profile_id_analysis_body pd df p = Inr (None, None)"
  by (auto simp: filtered_def profile_id_analysis_body_def Let_def split: option.splits)

lemma filtered_trend_empty:
  "filtered df p l = [] \<Longrightarrow> trend_analysis pd df p l = Inr (None, None)"
  by (auto simp: filtered_def trend_analysis_def Let_def split: option.splits)

lemma filtered_weekly_empty:
  "filtered df p l = [] \<Longrightarrow> weekly_analysis pd df p l = Inr None"
  by (auto simp: filtered_def weekly_analysis_def Let_def split: option.splits)



subsection \<open>What the aggregations depend on\<close>

text \<open>
  C3 says that every aggregation takes the data frame and the filters as explicit inputs
  and depends on no other state. \<open>lot_specific_analysis\<close>, \<open>trend_analysis\<close> and
  \<open>weekly_analysis\<close> do: their source reads its arguments and calls pandas, nothing else,
  so in the model they are functions of the data frame, the filters and the library.
  \<open>profile_id_analysis\<close> does not. Its arguments are a hash and the profile filter; it
  reads the data frame from \<open>st.session_state.data\<close> and is wrapped in an \<open>lru_cache\<close>, as
  its docstring says. With the same arguments it returns the summary of the scenario in a
  session that holds the scenario and the empty signal in a session without data.
\<close>

theorem profile_id_analysis_reads_session:
  "fst (profile_id_analysis ref_pandas fresh_session (Some 7) None) \<noteq>
   fst (profile_id_analysis ref_pandas empty_session (Some 7) None)"
proof -
  have "fst (profile_id_analysis ref_pandas empty_session (Some 7) None) = Inr (None, None)"
    by (simp add: profile_id_analysis_def empty_session_def profile_id_analysis_body_def)
  moreover have "fst (profile_id_analysis ref_pandas fresh_session (Some 7) None) \<noteq>
      Inr (None, None)"
    by code_simp
  ultimately show ?thesis by simp
qed

text \<open>
  C3, amended: \<open>profile_id_analysis\<close> depends on its arguments, on the data frame of the
  session and on the cache entry under its arguments, and on nothing else; two calls with
  the same arguments in states that agree on these two return the same result.
\<close>

theorem profile_id_analysis_determined:
  assumes "session_state_data s1 = session_state_data s2"
    and "map_of (lru_cache s1) (df_hash, p) = map_of (lru_cache s2) (df_hash, p)"
  shows "fst (profile_id_analysis pd s1 df_hash p) = fst (profile_id_analysis pd s2 df_hash p)"
  using assms by (simp add: profile_id_analysis_def Let_def split: option.splits sum.splits)

theorem profile_id_analysis_determined_witness:
  "session_state_data fresh_session = session_state_data used_session \<and>
   map_of (lru_cache fresh_session) (Some 7, Some ''P1'') =
     map_of (lru_cache used_session) (Some 7, Some ''P1'') \<and>
   lru_cache fresh_session \<noteq> lru_cache used_session \<and>
   fst (profile_id_analysis ref_pandas fresh_session (Some 7) (Some ''P1'')) =
     fst (profile_id_analysis ref_pandas used_session (Some 7) (Some ''P1''))"
proof -
  have a: "session_state_data fresh_session = session_state_data used_session"
    by (simp add: fresh_session_def used_session_def)
  have b: "map_of (lru_cache fresh_session) (Some 7, Some ''P1'') =
     map_of (lru_cache used_session) (Some 7, Some ''P1'')"
    by (simp add: fresh_session_def used_session_def)
  have c: "lru_cache fresh_session \<noteq> lru_cache used_session"
    by (simp add: fresh_session_def used_session_def)
  from profile_id_analysis_determined [OF a b, of ref_pandas] a b c show ?thesis by simp
qed

subsection \<open>The top lots\<close>

lemma length_unique: "length (unique xs) = card (set xs)"
  by (metis distinct_card distinct_unique set_unique)

lemma filtered_lot_nonempty:
  assumes "filtered df p None \<noteq> []"
  shows "\<exists>lot_df.
           map Inr lot_df = map (lot_data_row (filtered df p None)) (unique (map Lot (filtered df p None))) \<and>
           lot_df \<noteq> [] \<and>
           lot_specific_analysis pd df p = Inr (Some lot_df, Some (take 20 (sort_lots pd lot_df)))"
proof -
  from assms obtain df0 where df: "df = Some df0" and df0: "df0 \<noteq> []"
    and f: "filter_profile p df0 \<noteq> []"
    by (auto elim: filtered_ne)
  have fl: "filtered df p None = filter_profile p df0" by (simp add: filtered_def df)
  obtain lot_df where l: "sequence_err (map (lot_data_row (filter_profile p df0))
      (unique (map Lot (filter_profile p df0)))) = Inr lot_df"
    using lot_rows_Inr by blast
  from sequence_err_length [OF l] f have ne: "lot_df \<noteq> []" by auto
  from l have "map Inr lot_df = map (lot_data_row (filter_profile p df0))
      (unique (map Lot (filter_profile p df0)))"
    by (simp add: sequence_err_Inr_iff)
  moreover have "lot_specific_analysis pd df p =
      Inr (Some lot_df, Some (take 20 (sort_lots pd lot_df)))"
    using df df0 f l ne by (simp add: lot_specific_analysis_def Let_def)
  ultimately show ?thesis unfolding fl using ne by blast
qed

lemma sorted_wrt_take_drop:
  assumes "sorted_wrt R xs"
  shows "\<forall>a \<in> set (take n xs). \<forall>b \<in> set (drop n xs). R a b"
proof -
  have "sorted_wrt R (take n xs @ drop n xs)" using assms by simp
  then show ?thesis unfolding sorted_wrt_append by blast
qed

lemma mset_take_drop: "mset xs - mset (take n xs) = mset (drop n xs)"
proof -
  have "mset xs = mset (take n xs) + mset (drop n xs)"
    by (metis append_take_drop_id mset_append)
  then show ?thesis by simp
qed

lemma sorted_desc_rev:
  "sorted (map f ys) \<Longrightarrow> sorted_wrt (\<lambda>a b. f b \<le> f a) (rev ys)"
  by (simp add: sorted_wrt_rev sorted_map)

lemma sort_lots_ok_ref: "sort_lots_ok ref_pandas"
  by (simp add: sort_lots_ok_def ref_pandas_def sort_lots_stable_def sorted_desc_rev)

text \<open>
  C6 says that the top view of the lot summary holds \<open>min(20, number of distinct lots)\<close>
  rows in descending order of their runs, lots with equal runs in the order of their first
  appearance. The source sorts with \<open>lot_df.sort_values('Total Runs', ascending=False)\<close>
  and passes no \<open>kind\<close>; the default of pandas is the \<open>quicksort\<close> of numpy, which is not
  stable. Its introsort keeps the order of equal keys only in a table short enough to be
  sorted by insertion; a longer table is partitioned, which moves rows with equal keys.
  For twenty lots of one run each the lot summary holds the lots in the order of their
  first appearance and the top view holds the same twenty rows in another order, with
  either value of \<open>SMALL_QUICKSORT\<close>.
\<close>

theorem top_lots_ties_reordered:
  "list_all
     (\<lambda>small. \<exists>lots top_lots.
        lot_specific_analysis (numpy_pandas small) (Some tied_lots_df) None =
          Inr (Some lots, Some top_lots) \<and>
        map Lot_Number lots = map Lot tied_lots_df \<and>
        map Total_Runs lots = replicate 20 1 \<and>
        length top_lots = 20 \<and>
        set top_lots = set lots \<and>
        top_lots \<noteq> lots)
     [15, 16]"
proof -
  have "\<exists>lots top_lots.
        lot_specific_analysis (numpy_pandas small) (Some tied_lots_df) None =
          Inr (Some lots, Some top_lots) \<and>
        map Lot_Number lots = map Lot tied_lots_df \<and>
        map Total_Runs lots = replicate 20 1 \<and>
        length top_lots = 20 \<and>
        set top_lots = set lots \<and>
        top_lots \<noteq> lots"
    if "(case lot_specific_analysis (numpy_pandas small) (Some tied_lots_df) None of
           Inr (Some lots, Some top_lots) \<Rightarrow>
             map Lot_Number lots = map Lot tied_lots_df \<and>
             map Total_Runs lots = replicate 20 1 \<and>
             length top_lots = 20 \<and>
             set top_lots = set lots \<and>
             top_lots \<noteq> lots
         | _ \<Rightarrow> False)" for small
    using that by (auto split: sum.splits option.splits prod.splits)
  moreover
  have "(case lot_specific_analysis (numpy_pandas 15) (Some tied_lots_df) None of
           Inr (Some lots, Some top_lots) \<Rightarrow>
             map Lot_Number lots = map Lot tied_lots_df \<and>
             map Total_Runs lots = replicate 20 1 \<and>
             length top_lots = 20 \<and>
             set top_lots = set lots \<and>
             top_lots \<noteq> lots
         | _ \<Rightarrow> False)"
    by code_simp
  moreover
  have "(case lot_specific_analysis (numpy_pandas 16) (Some tied_lots_df) None of
           Inr (Some lots, Some top_lots) \<Rightarrow>
             map Lot_Number lots = map Lot tied_lots_df \<and>
             map Total_Runs lots = replicate 20 1 \<and>
             length top_lots = 20 \<and>
             set top_lots = set lots \<and>
             top_lots \<noteq> lots
         | _ \<Rightarrow> False)"
    by code_simp
  ultimately show ?thesis by simp
qed

text \<open>
  C6, amended: for a selection that is not empty the lot summary has a row for each value
  of \<open>Lot\<close> (a missing value is one of them), and the top view holds
  \<open>min(20, number of these values)\<close> of its rows, in descending order of their runs, and no
  row outside the top view has more runs than a row inside. For an empty selection both
  results are \<open>None\<close>. This holds for every library whose \<open>sort_values\<close> orders the keys.
\<close>

theorem top_lots_highest_runs:
  "(filtered df p None = [] \<longrightarrow> lot_specific_analysis pd df p = Inr (None, None)) \<and>
   (sort_lots_ok pd \<and> filtered df p None \<noteq> [] \<longrightarrow>
      (\<exists>lot_df top_lots.
         lot_specific_analysis pd df p = Inr (Some lot_df, Some top_lots) \<and>
         map Inr lot_df =
           map (lot_data_row (filtered df p None)) (unique (map Lot (filtered df p None))) \<and>
         length top_lots = min 20 (card (Lot ` set (filtered df p None))) \<and>
         sorted_wrt (\<lambda>a b. Total_Runs b \<le> Total_Runs a) top_lots \<and>
         mset top_lots \<subseteq># mset lot_df \<and>
         (\<forall>a \<in> set top_lots. \<forall>b \<in># mset lot_df - mset top_lots. Total_Runs b \<le> Total_Runs a)))"
proof (intro conjI impI)
  assume "filtered df p None = []"
  then show "lot_specific_analysis pd df p = Inr (None, None)" by (rule filtered_lot_empty)
next
  assume a: "sort_lots_ok pd \<and> filtered df p None \<noteq> []"
  let ?f = "filtered df p None"
  from a filtered_lot_nonempty [of df p pd] obtain lots
    where lots: "map Inr lots = map (lot_data_row ?f) (unique (map Lot ?f))"
      and 1: "lot_specific_analysis pd df p = Inr (Some lots, Some (take 20 (sort_lots pd lots)))"
    by blast
  let ?s = "sort_lots pd lots"
  from a have ms: "mset ?s = mset lots"
    and so: "sorted_wrt (\<lambda>a b. Total_Runs b \<le> Total_Runs a) ?s"
    by (simp_all add: sort_lots_ok_def)
  have "length (map Inr lots :: (py_error + lot_row) list) = length (unique (map Lot ?f))"
    unfolding lots by simp
  then have ll: "length lots = card (Lot ` set ?f)" by (simp add: length_unique)
  have len: "length ?s = length lots" using ms by (rule mset_eq_length)
  have 2: "length (take 20 ?s) = min 20 (card (Lot ` set ?f))"
    using len ll by (simp add: min.commute)
  have 3: "sorted_wrt (\<lambda>a b. Total_Runs b \<le> Total_Runs a) (take 20 ?s)"
    using so by (rule sorted_wrt_take)
  have 4: "mset (take 20 ?s) \<subseteq># mset lots"
    unfolding ms [symmetric] by (metis append_take_drop_id mset_append mset_subset_eq_add_left)
  have 5: "\<forall>a \<in> set (take 20 ?s). \<forall>b \<in># mset lots - mset (take 20 ?s). Total_Runs b \<le> Total_Runs a"
    unfolding ms [symmetric] mset_take_drop using sorted_wrt_take_drop [OF so] by simp
  from 1 lots 2 3 4 5 show "\<exists>lot_df top_lots.
         lot_specific_analysis pd df p = Inr (Some lot_df, Some top_lots) \<and>
         map Inr lot_df =
           map (lot_data_row (filtered df p None)) (unique (map Lot (filtered df p None))) \<and>
         length top_lots = min 20 (card (Lot ` set (filtered df p None))) \<and>
         sorted_wrt (\<lambda>a b. Total_Runs b \<le> Total_Runs a) top_lots \<and>
         mset top_lots \<subseteq># mset lot_df \<and>
         (\<forall>a \<in> set top_lots. \<forall>b \<in># mset lot_df - mset top_lots. Total_Runs b \<le> Total_Runs a)"
    by blast
qed

theorem top_lots_highest_runs_witness:
  "sort_lots_ok ref_pandas \<and> filtered (Some scenario_df) None None \<noteq> [] \<and>
   (\<exists>lot_df top_lots.
      lot_specific_analysis ref_pandas (Some scenario_df) None = Inr (Some lot_df, Some top_lots) \<and>
      length top_lots = 2 \<and>
      sorted_wrt (\<lambda>a b. Total_Runs b \<le> Total_Runs a) top_lots)"
proof -
  have f: "filtered (Some scenario_df) None None = scenario_df"
    by (simp add: filtered_def filter_profile_def)
  have ne: "scenario_df \<noteq> []"
    by (simp add: scenario_df_def)
  have c: "card (Lot ` set scenario_df) = 2"
    by (simp add: scenario_df_def)
  from top_lots_highest_runs [of "Some scenario_df" None ref_pandas] sort_lots_ok_ref f ne c
  show ?thesis by auto
qed

subsection \<open>The order of the weekly table\<close>

lemma filtered_weekly_nonempty:
  assumes "filtered df p l \<noteq> []"
  shows "weekly_analysis pd df p l =
           (case weekly_lab_data pd (filtered df p l) of
              Inl e \<Rightarrow> Inl e
            | Inr df_result \<Rightarrow>
                Inr (Some (if df_result \<noteq> [] then sort_weekly pd df_result else df_result)))"
proof -
  from assms obtain df0 where df: "df = Some df0" and df0: "df0 \<noteq> []"
    and f: "filter_lab l (filter_profile p df0) \<noteq> []"
    by (auto elim: filtered_ne)
  have fl: "filtered df p l = filter_lab l (filter_profile p df0)" by (simp add: filtered_def df)
  show ?thesis unfolding fl using df df0 f by (simp add: weekly_analysis_def Let_def)
qed

lemma lab_week_row_Inr:
  assumes "2 \<le> length (split CHR ''-'' week)"
  shows "\<exists>v. lab_week_row week_df week date_range lab_name = Inr v"
  using assms by (auto simp: lab_week_row_def py_index_def Let_def)

lemma week_rows_Inr:
  assumes "2 \<le> length (split CHR ''-'' week)" and "date_range_of pd week = Inr s"
  shows "\<exists>rows. week_rows pd df week = Inr rows \<and>
           length rows = length (unique (map Lab_name (filter (\<lambda>r. Week r = week) df)))"
proof -
  let ?wdf = "filter (\<lambda>r. Week r = week) df"
  obtain rows where r: "sequence_err (map (lab_week_row ?wdf week s) (unique (map Lab_name ?wdf))) = Inr rows"
    using sequence_err_map_Inr [of "unique (map Lab_name ?wdf)" "lab_week_row ?wdf week s"]
      lab_week_row_Inr [OF assms(1)] by blast
  from sequence_err_length [OF r] r assms(2) show ?thesis
    by (simp add: week_rows_def Let_def)
qed

lemma weekly_lab_data_Inr:
  assumes "\<forall>r \<in> set df. 2 \<le> length (split CHR ''-'' (Week r)) \<and> (\<exists>s. date_range_of pd (Week r) = Inr s)"
    and "df \<noteq> []"
  shows "\<exists>rows. weekly_lab_data pd df = Inr rows \<and> rows \<noteq> []"
proof -
  let ?weeks = "sort (unique (map Week df))"
  have "\<exists>v. week_rows pd df w = Inr v" if "w \<in> set ?weeks" for w
  proof -
    from that obtain r where "r \<in> set df" "w = Week r" by auto
    with assms(1) week_rows_Inr [of w pd _ df] show ?thesis by blast
  qed
  then obtain rss where rss: "sequence_err (map (week_rows pd df) ?weeks) = Inr rss"
    using sequence_err_map_Inr [of ?weeks "week_rows pd df"] by blast
  have d: "weekly_lab_data pd df = Inr (concat rss)"
    using rss by (simp add: weekly_lab_data_def)
  from assms(2) obtain r0 where r0: "r0 \<in> set df" by (cases df) auto
  then have w0: "Week r0 \<in> set ?weeks" by simp
  from r0 assms(1) obtain s where s: "2 \<le> length (split CHR ''-'' (Week r0))"
    "date_range_of pd (Week r0) = Inr s" by blast
  from week_rows_Inr [OF s, of df] obtain rows where rows: "week_rows pd df (Week r0) = Inr rows"
    "length rows = length (unique (map Lab_name (filter (\<lambda>r. Week r = Week r0) df)))" by blast
  have "filter (\<lambda>r. Week r = Week r0) df \<noteq> []" using r0 by (auto simp: filter_empty_conv)
  with rows(2) have ne: "rows \<noteq> []" by auto
  have "rows \<in> set rss"
  proof -
    have all: "\<And>ws vs. sequence_err (map (week_rows pd df) ws) = Inr vs \<Longrightarrow> Week r0 \<in> set ws \<Longrightarrow> rows \<in> set vs"
    proof -
      fix ws vs
      show "sequence_err (map (week_rows pd df) ws) = Inr vs \<Longrightarrow> Week r0 \<in> set ws \<Longrightarrow> rows \<in> set vs"
        using rows(1) by (induction ws arbitrary: vs) (auto split: sum.splits)
    qed
    from all [OF rss w0] show ?thesis .
  qed
  with ne have "concat rss \<noteq> []" by auto
  with d show ?thesis by simp
qed

lemma invalid_rate_as_pct:
  "invalid_rate (count_status ''Invalid'' g) (count_status ''Indeterminate'' g) (length g) = Inr x \<Longrightarrow>
   py_round x 2 = invalid_rate_pct py_round g \<and> np_round x 2 = invalid_rate_pct np_round g"
  by (auto simp: invalid_rate_pct_def float_mul_def)

lemma lab_week_row_pct:
  assumes "lab_week_row wdf week dr k = Inr r"
  shows "w_Week r = week_label week \<and> w_Lab_Name r = k \<and>
         w_Total_Runs r = length (filter (\<lambda>x. cell_eq (Lab_name x) k) wdf) \<and>
         w_Invalid_Indeterminate_pct r =
           invalid_rate_pct py_round (filter (\<lambda>x. cell_eq (Lab_name x) k) wdf)"
proof -
  from assms have "2 \<le> length (split CHR ''-'' week)"
    by (auto simp: lab_week_row_def Let_def py_index_def split: sum.splits if_splits)
  then obtain y n rest where "split CHR ''-'' week = y # n # rest"
    by (auto simp: numeral_2_eq_2 Suc_le_length_iff)
  with assms invalid_rate_as_pct [of "filter (\<lambda>x. cell_eq (Lab_name x) k) wdf"]
  show ?thesis
    by (auto simp: lab_week_row_def Let_def py_index_def week_label_def
        simp del: invalid_rate_Inr split: sum.splits)
qed

lemma sequence_err_map_proj:
  assumes "sequence_err (map f ks) = Inr rows" and "\<And>k r. f k = Inr r \<Longrightarrow> h r = g k"
  shows "map h rows = map g ks"
  using assms(1)
proof (induction ks arbitrary: rows)
  case Nil
  then show ?case by simp
next
  case (Cons k ks)
  then show ?case using assms(2) by (auto split: sum.splits)
qed

lemma weekly_lab_data_groups:
  assumes "weekly_lab_data pd f = Inr rows"
  shows "map (\<lambda>r. (w_Week r, w_Lab_Name r, w_Total_Runs r, w_Invalid_Indeterminate_pct r)) rows =
         map (\<lambda>(week, lab_name).
                (week_label week, lab_name, length (week_lab_rows f week lab_name),
                 invalid_rate_pct py_round (week_lab_rows f week lab_name)))
           (week_lab_groups f)"
proof -
  let ?h = "\<lambda>r. (w_Week r, w_Lab_Name r, w_Total_Runs r, w_Invalid_Indeterminate_pct r)"
  let ?g = "\<lambda>week lab_name.
              (week_label week, lab_name, length (week_lab_rows f week lab_name),
               invalid_rate_pct py_round (week_lab_rows f week lab_name))"
  let ?labs = "\<lambda>week. unique (map Lab_name (filter (\<lambda>x. Week x = week) f))"
  from assms obtain rss
    where rss: "sequence_err (map (week_rows pd f) (sort (unique (map Week f)))) = Inr rss"
      and rows: "rows = concat rss"
    by (auto simp: weekly_lab_data_def split: sum.splits)
  have one: "map ?h rs = map (?g week) (?labs week)" if "week_rows pd f week = Inr rs" for week rs
  proof -
    from that obtain dr where
      "sequence_err (map (lab_week_row (filter (\<lambda>x. Week x = week) f) week dr) (?labs week)) = Inr rs"
      by (auto simp: week_rows_def Let_def split: sum.splits)
    then show ?thesis
      by (rule sequence_err_map_proj) (simp add: lab_week_row_pct week_lab_rows_def)
  qed
  have "map (map ?h) rss = map (\<lambda>week. map (?g week) (?labs week)) (sort (unique (map Week f)))"
    using rss by (rule sequence_err_map_proj) (rule one)
  then have "map ?h (concat rss) =
      concat (map (\<lambda>week. map (?g week) (?labs week)) (sort (unique (map Week f))))"
    by (simp add: map_concat)
  also have "\<dots> = map (\<lambda>(week, lab_name). ?g week lab_name) (week_lab_groups f)"
    by (simp add: week_lab_groups_def map_concat comp_def)
  finally show ?thesis using rows by simp
qed

lemma ref_to_datetime_format_Inl:
  assumes "ref_to_datetime_format f s = Inl e"
  shows "e = ValueError"
  using assms
  by (auto simp: ref_to_datetime_format_def strptime_dmY_HMS_def strptime_YUw_def timestamp_of_def
      split: if_splits list.splits)

lemma date_range_of_numpy_pandas: "\<exists>s. date_range_of (numpy_pandas small) week = Inr s"
proof (cases "week_date_range (numpy_pandas small) week")
  case (Inl e)
  then have "e = IndexError \<or> e = ValueError"
    by (auto simp: week_date_range_def py_index_def numpy_pandas_def ref_pandas_def
        split: sum.splits if_splits dest: ref_to_datetime_format_Inl)
  with Inl show ?thesis by (auto simp: date_range_of_def)
next
  case (Inr s)
  then show ?thesis by (simp add: date_range_of_def)
qed

lemma sort_weekly_ok_ref: "sort_weekly_ok ref_pandas"
  by (simp add: sort_weekly_ok_def ref_pandas_def sort_weekly_stable_def)

text \<open>
  C7 says that the weekly table is sorted by lab name and that rows of the same lab keep
  their order by week. The source sorts with \<open>df_result.sort_values('Lab Name')\<close>, again
  with the default \<open>kind\<close>. In pandas 2 the lab names are a column of Python objects, which
  numpy sorts by its introsort: a table too long to be sorted by insertion is partitioned,
  and rows of the same lab change places. (pandas 3 holds the names in a text column of its
  own and may sort it by another routine.) For one lab with a run in each of twenty weeks
  the table holds the twenty rows of the lab, and not in the order of the weeks, with
  either value of \<open>SMALL_QUICKSORT\<close>.
\<close>

theorem weekly_ties_reordered:
  "list_all
     (\<lambda>small. \<exists>t.
        weekly_analysis (numpy_pandas small) (Some twenty_weeks_df) None None = Inr (Some t) \<and>
        map w_Lab_Name t = replicate 20 (Some ''A'') \<and>
        mset (map w_Week t) = mset (map (\<lambda>r. week_label (Week r)) twenty_weeks_df) \<and>
        map w_Week t \<noteq> map (\<lambda>r. week_label (Week r)) twenty_weeks_df)
     [15, 16]"
proof -
  have "\<exists>t.
        weekly_analysis (numpy_pandas small) (Some twenty_weeks_df) None None = Inr (Some t) \<and>
        map w_Lab_Name t = replicate 20 (Some ''A'') \<and>
        mset (map w_Week t) = mset (map (\<lambda>r. week_label (Week r)) twenty_weeks_df) \<and>
        map w_Week t \<noteq> map (\<lambda>r. week_label (Week r)) twenty_weeks_df"
    if perm: "nargsort small (replicate 20 (Some ''A'')) True =
        [0, 17, 16, 15, 14, 13, 12, 11, 10, 9, 8, 7, 6, 5, 4, 3, 2, 1, 18, 19]" for small
  proof -
  let ?labels = "[''2024 Week 01'', ''2024 Week 02'', ''2024 Week 03'', ''2024 Week 04'',
    ''2024 Week 05'', ''2024 Week 06'', ''2024 Week 07'', ''2024 Week 08'', ''2024 Week 09'',
    ''2024 Week 10'', ''2024 Week 11'', ''2024 Week 12'', ''2024 Week 13'', ''2024 Week 14'',
    ''2024 Week 15'', ''2024 Week 16'', ''2024 Week 17'', ''2024 Week 18'', ''2024 Week 19'',
    ''2024 Week 20'']"
  let ?perm = "[0, 17, 16, 15, 14, 13, 12, 11, 10, 9, 8, 7, 6, 5, 4, 3, 2, 1, 18, 19] :: nat list"
  have weeks: "map Week twenty_weeks_df =
    [''2024-01'', ''2024-02'', ''2024-03'', ''2024-04'', ''2024-05'', ''2024-06'', ''2024-07'',
     ''2024-08'', ''2024-09'', ''2024-10'', ''2024-11'', ''2024-12'', ''2024-13'', ''2024-14'',
     ''2024-15'', ''2024-16'', ''2024-17'', ''2024-18'', ''2024-19'', ''2024-20'']"
    by code_simp
  have labels: "map (\<lambda>r. week_label (Week r)) twenty_weeks_df = ?labels"
    by code_simp
  have groups: "week_lab_groups twenty_weeks_df =
      map (\<lambda>week. (week, Some ''A'')) (map Week twenty_weeks_df)"
    by code_simp
  have f: "filtered (Some twenty_weeks_df) None None = twenty_weeks_df"
    by (simp add: filtered_def filter_profile_def)
  have len: "length twenty_weeks_df = 20"
    using arg_cong [OF weeks, of length] by simp
  then have ne: "twenty_weeks_df \<noteq> []" by auto
  have "\<forall>w \<in> set (map Week twenty_weeks_df). 2 \<le> length (split CHR ''-'' w)"
    unfolding weeks by simp
  then have "\<forall>r \<in> set twenty_weeks_df.
      2 \<le> length (split CHR ''-'' (Week r)) \<and> (\<exists>s. date_range_of (numpy_pandas small) (Week r) = Inr s)"
    using date_range_of_numpy_pandas by simp
  from weekly_lab_data_Inr [OF this ne] obtain rows
    where rows: "weekly_lab_data (numpy_pandas small) twenty_weeks_df = Inr rows" and "rows \<noteq> []"
    by blast
  with filtered_weekly_nonempty [of "Some twenty_weeks_df" None None "numpy_pandas small"] f ne
  have wa: "weekly_analysis (numpy_pandas small) (Some twenty_weeks_df) None None =
      Inr (Some (sort_weekly (numpy_pandas small) rows))"
    by simp
  have proj: "map (\<lambda>r. (w_Week r, w_Lab_Name r, w_Total_Runs r, w_Invalid_Indeterminate_pct r)) rows =
      map (\<lambda>week. (week_label week, Some ''A'',
                    length (week_lab_rows twenty_weeks_df week (Some ''A'')),
                    invalid_rate_pct py_round (week_lab_rows twenty_weeks_df week (Some ''A''))))
        (map Week twenty_weeks_df)"
    using weekly_lab_data_groups [OF rows] by (simp add: groups comp_def)
  from arg_cong [OF proj, of "map fst"]
  have wk: "map w_Week rows = ?labels"
    using labels by (simp add: comp_def)
  from arg_cong [OF proj, of "map (\<lambda>x. fst (snd x))"]
  have labs: "map w_Lab_Name rows = replicate 20 (Some ''A'')"
    by (simp add: comp_def len map_replicate_const)
  from arg_cong [OF wk, of length] have lr: "length rows = 20" by simp
  have st: "sort_weekly (numpy_pandas small) rows = map (\<lambda>i. rows ! i) ?perm"
    by (simp add: numpy_pandas_def labs perm)
  have nth: "map g (map (\<lambda>i. rows ! i) ?perm) = map (\<lambda>i. map g rows ! i) ?perm" for g :: "weekly_row \<Rightarrow> 'b"
    by (simp add: lr)
  have 1: "map w_Lab_Name (sort_weekly (numpy_pandas small) rows) = replicate 20 (Some ''A'')"
    unfolding st nth labs by code_simp
  have 2: "map w_Week (sort_weekly (numpy_pandas small) rows) =
      [''2024 Week 01'', ''2024 Week 18'', ''2024 Week 17'', ''2024 Week 16'', ''2024 Week 15'',
       ''2024 Week 14'', ''2024 Week 13'', ''2024 Week 12'', ''2024 Week 11'', ''2024 Week 10'',
       ''2024 Week 09'', ''2024 Week 08'', ''2024 Week 07'', ''2024 Week 06'', ''2024 Week 05'',
       ''2024 Week 04'', ''2024 Week 03'', ''2024 Week 02'', ''2024 Week 19'', ''2024 Week 20'']"
    unfolding st nth wk by code_simp
  have "sort (map w_Week (sort_weekly (numpy_pandas small) rows)) = ?labels"
    unfolding 2 by code_simp
  then have 3: "mset (map w_Week (sort_weekly (numpy_pandas small) rows)) = mset ?labels"
    by (metis mset_sort)
  have 4: "map w_Week (sort_weekly (numpy_pandas small) rows) \<noteq> ?labels"
    unfolding 2 by simp
  from wa 1 3 4 show ?thesis unfolding labels by blast
  qed
  moreover
  have "nargsort 15 (replicate 20 (Some ''A'')) True =
      [0, 17, 16, 15, 14, 13, 12, 11, 10, 9, 8, 7, 6, 5, 4, 3, 2, 1, 18, 19]"
    by code_simp
  moreover
  have "nargsort 16 (replicate 20 (Some ''A'')) True =
      [0, 17, 16, 15, 14, 13, 12, 11, 10, 9, 8, 7, 6, 5, 4, 3, 2, 1, 18, 19]"
    by code_simp
  ultimately show ?thesis by simp
qed

text \<open>
  C7, amended: the weekly table holds exactly the rows that the loops over the weeks and
  the labs produce, sorted by lab name with the missing names last; the order of rows with
  the same lab name is not determined by the source. The function returns the table
  whenever every week key of the selection splits at a hyphen and the date range of the
  week raises nothing but \<open>IndexError\<close> or \<open>ValueError\<close>.
\<close>

theorem weekly_sorted_by_lab:
  "(sort_weekly_ok pd \<and> weekly_analysis pd df p l = Inr (Some t) \<longrightarrow>
      sorted (map (\<lambda>r. lab_key (w_Lab_Name r)) t) \<and>
      (\<exists>rows. weekly_lab_data pd (filtered df p l) = Inr rows \<and> mset t = mset rows)) \<and>
   (filtered df p l \<noteq> [] \<and>
    (\<forall>r \<in> set (filtered df p l).
        2 \<le> length (split CHR ''-'' (Week r)) \<and> (\<exists>s. date_range_of pd (Week r) = Inr s)) \<longrightarrow>
      (\<exists>t. weekly_analysis pd df p l = Inr (Some t)))"
proof (intro conjI impI)
  assume a: "sort_weekly_ok pd \<and> weekly_analysis pd df p l = Inr (Some t)"
  then have ne: "filtered df p l \<noteq> []"
    using filtered_weekly_empty [of df p l pd] by auto
  from a filtered_weekly_nonempty [OF ne, of pd] obtain rows
    where rows: "weekly_lab_data pd (filtered df p l) = Inr rows"
      and t: "t = (if rows \<noteq> [] then sort_weekly pd rows else rows)"
    by (auto split: sum.splits)
  from a have ok: "mset (sort_weekly pd rows) = mset rows"
    "sorted (map (\<lambda>r. lab_key (w_Lab_Name r)) (sort_weekly pd rows))"
    by (simp_all add: sort_weekly_ok_def)
  show "sorted (map (\<lambda>r. lab_key (w_Lab_Name r)) t)"
    using t ok by (cases "rows = []") simp_all
  show "\<exists>rows. weekly_lab_data pd (filtered df p l) = Inr rows \<and> mset t = mset rows"
    using t ok rows by (cases "rows = []") simp_all
next
  assume a: "filtered df p l \<noteq> [] \<and>
    (\<forall>r \<in> set (filtered df p l).
        2 \<le> length (split CHR ''-'' (Week r)) \<and> (\<exists>s. date_range_of pd (Week r) = Inr s))"
  then obtain rows where "weekly_lab_data pd (filtered df p l) = Inr rows"
    using weekly_lab_data_Inr [of "filtered df p l" pd] by blast
  with a show "\<exists>t. weekly_analysis pd df p l = Inr (Some t)"
    by (simp add: filtered_weekly_nonempty)
qed

theorem weekly_sorted_by_lab_witness:
  "sort_weekly_ok ref_pandas \<and> filtered (Some two_weeks_df) None None \<noteq> [] \<and>
   (\<exists>t rows. weekly_analysis ref_pandas (Some two_weeks_df) None None = Inr (Some t) \<and>
      sorted (map (\<lambda>r. lab_key (w_Lab_Name r)) t) \<and>
      weekly_lab_data ref_pandas two_weeks_df = Inr rows \<and> mset t = mset rows)"
proof -
  have f: "filtered (Some two_weeks_df) None None = two_weeks_df"
    by (simp add: filtered_def filter_profile_def)
  have ne: "two_weeks_df \<noteq> []"
    by (simp add: two_weeks_df_def)
  have d1: "date_range_of ref_pandas ''2024-01'' = Inr ''08-01-2024 to 14-01-2024''"
    by code_simp
  have d2: "date_range_of ref_pandas ''2024-02'' = Inr ''15-01-2024 to 21-01-2024''"
    by code_simp
  have h: "\<forall>r \<in> set (filtered (Some two_weeks_df) None None).
             2 \<le> length (split CHR ''-'' (Week r)) \<and> (\<exists>s. date_range_of ref_pandas (Week r) = Inr s)"
    unfolding f by (simp add: two_weeks_df_def d1 d2)
  from weekly_sorted_by_lab [of ref_pandas "Some two_weeks_df" None None] h f ne
  obtain t where t: "weekly_analysis ref_pandas (Some two_weeks_df) None None = Inr (Some t)"
    by auto
  with weekly_sorted_by_lab [of ref_pandas "Some two_weeks_df" None None t] sort_weekly_ok_ref f ne
  show ?thesis by auto
qed

subsection \<open>Rounding to binary64 keeps the bounds\<close>

lemma round_half_even_le:
  assumes "q \<le> of_int n"
  shows "round_half_even q \<le> n"
proof -
  have f: "\<lfloor>q\<rfloor> \<le> n" using assms by (simp add: floor_le_iff)
  show ?thesis
  proof (cases "\<lfloor>q\<rfloor> = n")
    case True
    then have "of_int n \<le> q" by (metis of_int_floor_le)
    with assms have "q = of_int n" by simp
    then show ?thesis by (simp add: round_half_even_def)
  next
    case False
    with f have "\<lfloor>q\<rfloor> + 1 \<le> n" by simp
    then show ?thesis by (auto simp: round_half_even_def Let_def)
  qed
qed

lemma round_half_even_nonneg:
  assumes "0 \<le> q"
  shows "0 \<le> round_half_even q"
proof -
  have "0 \<le> \<lfloor>q\<rfloor>" using assms by simp
  then show ?thesis by (auto simp: round_half_even_def Let_def)
qed

lemma round_half_even_of_int [simp]: "round_half_even (of_int n) = n"
  by (simp add: round_half_even_def)

lemma bit_length_bounds:
  "0 < n \<Longrightarrow> 2 ^ (bit_length n - 1) \<le> n \<and> n < 2 ^ bit_length n"
proof (induction n rule: bit_length.induct)
  case (1 n)
  show ?case
  proof (cases "n = 1")
    case True
    then show ?thesis by (simp add: bit_length.simps [of 1] bit_length.simps [of 0])
  next
    case False
    with "1.prems" have h: "0 < n div 2" by simp
    with "1.IH" "1.prems" have ih: "2 ^ (bit_length (n div 2) - 1) \<le> n div 2"
      "n div 2 < 2 ^ bit_length (n div 2)" by simp_all
    have b: "bit_length n = Suc (bit_length (n div 2))"
      using "1.prems" by (simp add: bit_length.simps [of n])
    have pos: "0 < bit_length (n div 2)"
      using h by (simp add: bit_length.simps [of "n div 2"])
    have "2 ^ (bit_length n - 1) = 2 * 2 ^ (bit_length (n div 2) - 1)"
      using b pos by (cases "bit_length (n div 2)") simp_all
    also have "\<dots> \<le> 2 * (n div 2)" using ih(1) by simp
    also have "\<dots> \<le> n" by simp
    finally have lo: "2 ^ (bit_length n - 1) \<le> n" .
    have "n < 2 * (n div 2) + 2" by simp
    also have "\<dots> \<le> 2 * 2 ^ bit_length (n div 2)" using ih(2) by simp
    finally have "n < 2 ^ bit_length n" using b by simp
    with lo show ?thesis by simp
  qed
qed

lemma ilog2_le:
  assumes "0 < q"
  shows "2 powi (ilog2 q) \<le> q"
proof -
  obtain a b where ab: "quotient_of q = (a, b)" by (cases "quotient_of q")
  then have q: "q = of_int a / of_int b" and b: "0 < b"
    using quotient_of_div quotient_of_denom_pos by blast+
  from assms q b have a: "0 < a" by (simp add: zero_less_divide_iff)
  let ?e = "int (bit_length a) - int (bit_length b)"
  show ?thesis
  proof (cases "2 powi ?e \<le> q")
    case True
    then show ?thesis by (simp add: ilog2_def ab)
  next
    case False
    then have i: "ilog2 q = ?e - 1" by (simp add: ilog2_def ab)
    from bit_length_bounds [OF a] have la: "(2::rat) ^ (bit_length a - 1) \<le> of_int a"
      by (metis of_int_le_iff of_int_numeral of_int_power)
    from bit_length_bounds [OF b] have "b < 2 ^ bit_length b" by simp
    then have lb: "of_int b \<le> (2::rat) ^ bit_length b"
      by (metis less_imp_le of_int_le_iff of_int_numeral of_int_power)
    have pa: "0 < bit_length a" using a by (simp add: bit_length.simps [of a])
    have "2 powi (?e - 1) = (2::rat) ^ (bit_length a - 1) / 2 ^ bit_length b"
    proof -
      have "?e - 1 = int (bit_length a - 1) - int (bit_length b)" using pa by simp
      then have "2 powi (?e - 1) = (2::rat) powi (int (bit_length a - 1) - int (bit_length b))"
        by (simp only:)
      also have "\<dots> = (2::rat) powi int (bit_length a - 1) / 2 powi int (bit_length b)"
        by (rule power_int_diff) simp
      finally show ?thesis by (simp only: power_int_of_nat)
    qed
    also have "\<dots> \<le> of_int a / 2 ^ bit_length b"
      using la by (simp add: divide_right_mono)
    also have "\<dots> \<le> of_int a / of_int b"
      using lb a b by (simp add: divide_left_mono)
    finally show ?thesis using i q by simp
  qed
qed

lemma ilog2_upper:
  assumes "0 < q" and "q < 2 ^ n"
  shows "ilog2 q < int n"
proof (rule ccontr)
  assume "\<not> ilog2 q < int n"
  then have "int n \<le> ilog2 q" by simp
  then have "(2::rat) powi (int n) \<le> 2 powi (ilog2 q)"
    by (rule power_int_increasing) simp
  also have "\<dots> \<le> q" using assms(1) by (rule ilog2_le)
  finally show False using assms(2) by simp
qed

lemma fl_nonneg:
  assumes "0 \<le> q"
  shows "0 \<le> fl q"
proof (cases "q = 0")
  case True
  then show ?thesis by (simp add: fl_def)
next
  case False
  have "0 \<le> q / 2 powi ulp_exp q" using assms by simp
  then have "0 \<le> round_half_even (q / 2 powi ulp_exp q)" by (rule round_half_even_nonneg)
  then show ?thesis using False by (simp add: fl_def)
qed

lemma fl_le_int:
  assumes "0 \<le> q" and "q \<le> of_int c" and "c < 2 ^ 52"
  shows "fl q \<le> of_int c"
proof (cases "q = 0")
  case True
  with assms show ?thesis by (simp add: fl_def)
next
  case False
  with assms have pos: "0 < q" by simp
  have "q < 2 ^ 52"
  proof -
    have "(of_int c :: rat) < of_int (2 ^ 52)" using assms(3) by (simp only: of_int_less_iff)
    with assms(2) show ?thesis by simp
  qed
  with pos have "ilog2 q < 52" using ilog2_upper [of q 52] by simp
  then have k: "ulp_exp q \<le> 0" using pos by (simp add: ulp_exp_def)
  define m where "m = nat (- ulp_exp q)"
  have u: "2 powi ulp_exp q = 1 / (2::rat) ^ m"
  proof -
    have "ulp_exp q = - int m" using k by (simp add: m_def)
    then show ?thesis by (simp add: power_int_minus field_simps)
  qed
  have "q / 2 powi ulp_exp q = q * 2 ^ m" by (simp add: u)
  also have "\<dots> \<le> of_int c * 2 ^ m" using assms(2) by simp
  also have "\<dots> = of_int (c * 2 ^ m)" by simp
  finally have "round_half_even (q / 2 powi ulp_exp q) \<le> c * 2 ^ m"
    by (rule round_half_even_le)
  then have "(of_int (round_half_even (q / 2 powi ulp_exp q)) :: rat) \<le> of_int (c * 2 ^ m)"
    by (simp only: of_int_le_iff)
  then have "of_int (round_half_even (q / 2 powi ulp_exp q)) * (1 / (2::rat) ^ m) \<le> of_int (c * 2 ^ m) * (1 / 2 ^ m)"
    by (rule mult_right_mono) simp
  then show ?thesis using False by (simp add: fl_def u)
qed

subsection \<open>The percentages\<close>

lemma count_status_disjoint:
  "count_status ''Invalid'' g + count_status ''Indeterminate'' g \<le> length g"
  by (induction g) (auto simp: count_status_def cell_eq_def)

lemma percent_range:
  assumes "k \<le> n" and "0 < n"
  shows "0 \<le> fl (fl (of_nat k / of_nat n) * 100) \<and> fl (fl (of_nat k / of_nat n) * 100) \<le> 100"
proof -
  let ?q = "of_nat k / of_nat n :: rat"
  have q: "0 \<le> ?q" "?q \<le> of_int 1" using assms by simp_all
  have a: "0 \<le> fl ?q" using q(1) by (rule fl_nonneg)
  have b: "fl ?q \<le> of_int 1" using q by (rule fl_le_int) simp
  have c: "0 \<le> fl ?q * 100" using a by simp
  have d: "fl ?q * 100 \<le> of_int 100" using b by simp
  have "fl (fl ?q * 100) \<le> of_int 100" using c d by (rule fl_le_int) simp
  moreover have "0 \<le> fl (fl ?q * 100)" using c by (rule fl_nonneg)
  ultimately show ?thesis by simp
qed

lemma py_round_range:
  assumes "0 \<le> x" and "x \<le> 100"
  shows "0 \<le> py_round x 2 \<and> py_round x 2 \<le> 100"
proof -
  have lo: "0 \<le> x * 10 ^ 2" using assms by simp
  have "x * 10 ^ 2 \<le> of_int 10000" using assms by simp
  then have r: "round_half_even (x * 10 ^ 2) \<le> 10000" by (rule round_half_even_le)
  have r0: "0 \<le> round_half_even (x * 10 ^ 2)" using lo by (rule round_half_even_nonneg)
  let ?y = "of_int (round_half_even (x * 10 ^ 2)) / 10 ^ 2 :: rat"
  have y0: "0 \<le> ?y" using r0 by simp
  have "(of_int (round_half_even (x * 10 ^ 2)) :: rat) \<le> of_int 10000"
    using r by (simp only: of_int_le_iff)
  then have y1: "?y \<le> of_int 100" by simp
  have "fl ?y \<le> of_int 100" using y0 y1 by (rule fl_le_int) simp
  moreover have "0 \<le> fl ?y" using y0 by (rule fl_nonneg)
  ultimately show ?thesis by (simp add: py_round_def)
qed

lemma np_round_range:
  assumes "0 \<le> x" and "x \<le> 100"
  shows "0 \<le> np_round x 2 \<and> np_round x 2 \<le> 100"
proof -
  have lo: "0 \<le> x * 10 ^ 2" using assms by simp
  have hi: "x * 10 ^ 2 \<le> of_int 10000" using assms by simp
  have s0: "0 \<le> fl (x * 10 ^ 2)" using lo by (rule fl_nonneg)
  have s1: "fl (x * 10 ^ 2) \<le> of_int 10000" using lo hi by (rule fl_le_int) simp
  have r: "round_half_even (fl (x * 10 ^ 2)) \<le> 10000" using s1 by (rule round_half_even_le)
  have r0: "0 \<le> round_half_even (fl (x * 10 ^ 2))" using s0 by (rule round_half_even_nonneg)
  let ?y = "of_int (round_half_even (fl (x * 10 ^ 2))) / 10 ^ 2 :: rat"
  have y0: "0 \<le> ?y" using r0 by simp
  have "(of_int (round_half_even (fl (x * 10 ^ 2))) :: rat) \<le> of_int 10000"
    using r by (simp only: of_int_le_iff)
  then have y1: "?y \<le> of_int 100" by simp
  have "fl ?y \<le> of_int 100" using y0 y1 by (rule fl_le_int) simp
  moreover have "0 \<le> fl ?y" using y0 by (rule fl_nonneg)
  ultimately show ?thesis by (simp add: np_round_def)
qed

lemma invalid_rate_pct_range:
  "0 \<le> invalid_rate_pct py_round g \<and> invalid_rate_pct py_round g \<le> 100 \<and>
   0 \<le> invalid_rate_pct np_round g \<and> invalid_rate_pct np_round g \<le> 100"
proof (cases "g = []")
  case True
  then show ?thesis by (simp add: invalid_rate_pct_def)
next
  case False
  then have n: "0 < length g" by simp
  from percent_range [OF count_status_disjoint n]
  have "0 \<le> fl (fl (of_nat (count_status ''Invalid'' g + count_status ''Indeterminate'' g) /
                      of_nat (length g)) * 100)"
    "fl (fl (of_nat (count_status ''Invalid'' g + count_status ''Indeterminate'' g) /
                      of_nat (length g)) * 100) \<le> 100" by simp_all
  from py_round_range [OF this] np_round_range [OF this] n show ?thesis
    by (simp add: invalid_rate_pct_def)
qed

lemma lot_data_row_pct:
  assumes "lot_data_row f k = Inr r"
  shows "Lot_Number r = k \<and>
         Invalid_Indeterminate_pct r = invalid_rate_pct py_round (filter (\<lambda>x. cell_eq (Lot x) k) f)"
  using assms invalid_rate_as_pct [of "filter (\<lambda>x. cell_eq (Lot x) k) f"]
  by (auto simp: lot_data_row_def Let_def simp del: invalid_rate_Inr split: sum.splits)

lemma lab_data_row_pct:
  assumes "lab_data_row pd f k = Inr r"
  shows "l_Lab_Name r = k \<and>
         l_Invalid_Indeterminate_pct r =
           invalid_rate_pct np_round (filter (\<lambda>x. cell_eq (Lab_name x) k) f) \<and>
         l_Last_10_runs_Invalid_Indeterminate_pct r =
           invalid_rate_pct np_round (tail 10 (filter (\<lambda>x. cell_eq (Lab_name x) k) f))"
proof -
  let ?g = "filter (\<lambda>x. cell_eq (Lab_name x) k) f"
  obtain x where x: "invalid_rate (count_status ''Invalid'' ?g) (count_status ''Indeterminate'' ?g) (length ?g) = Inr x"
    by simp
  obtain y where y: "invalid_rate (count_status ''Invalid'' (tail 10 ?g))
      (count_status ''Indeterminate'' (tail 10 ?g)) (length (tail 10 ?g)) = Inr y"
    by simp
  have e: "tail 10 ?g = [] \<Longrightarrow> invalid_rate_pct np_round (tail 10 ?g) = 0"
    by (simp add: invalid_rate_pct_def)
  from assms x y invalid_rate_as_pct [OF x] invalid_rate_as_pct [OF y] e show ?thesis
    by (auto simp: lab_data_row_def Let_def simp del: invalid_rate_Inr
        split: if_splits sum.splits)
qed

lemma overall_summary_pct:
  assumes "overall_summary f = Inr s"
  shows "s_Overall_Invalid_Indeterminate_pct s = invalid_rate_pct np_round f"
  using assms invalid_rate_as_pct [of f]
  by (auto simp: overall_summary_def Let_def simp del: invalid_rate_Inr split: sum.splits)

lemma sequence_err_rows:
  assumes "sequence_err (map f ks) = Inr rows" and "r \<in> set rows"
  shows "\<exists>k \<in> set ks. f k = Inr r"
proof -
  from assms(1) have "map f ks = map Inr rows" by (simp add: sequence_err_Inr_iff)
  with assms(2) have "Inr r \<in> set (map f ks)" by simp
  then show ?thesis by auto
qed

lemma sequence_err_Inl:
  assumes "sequence_err (map f ks) = Inl e"
  shows "\<exists>k \<in> set ks. f k = Inl e"
  using assms by (induction ks) (auto split: sum.splits)

lemma join_Inl:
  assumes "join sep xs = Inl e"
  shows "e = TypeError \<and> None \<in> set xs"
  using assms by (auto simp: join_def list_all_iff split: if_splits)

lemma lab_data_row_Inl:
  assumes "lab_data_row pd f k = Inl e"
  shows "e = TypeError \<and> (\<exists>r \<in> set f. astype_str pd (Truelab_id r) = None)"
proof -
  let ?g = "filter (\<lambda>x. cell_eq (Lab_name x) k) f"
  from assms have "join '', '' (map (astype_str pd) (unique (map Truelab_id ?g))) = Inl e"
    by (auto simp: lab_data_row_def Let_def split: sum.splits if_splits)
  from join_Inl [OF this] have e: "e = TypeError"
    and "None \<in> astype_str pd ` set (map Truelab_id ?g)" by simp_all
  then obtain r where "r \<in> set ?g" "astype_str pd (Truelab_id r) = None" by force
  with e show ?thesis by auto
qed

lemma profile_id_analysis_body_Inl:
  assumes "profile_id_analysis_body pd df p = Inl e"
  shows "e = TypeError \<and> (\<exists>r \<in> set (filtered df p None). astype_str pd (Truelab_id r) = None)"
proof -
  have ne: "filtered df p None \<noteq> []"
    using assms filtered_body_empty [of df p pd] by auto
  then obtain df0 where df: "df = Some df0" and df0: "df0 \<noteq> []"
    and f: "filter_profile p df0 \<noteq> []"
    by (auto elim: filtered_ne)
  have fl: "filtered df p None = filter_profile p df0" by (simp add: filtered_def df)
  obtain s where s: "overall_summary (filter_profile p df0) = Inr s"
    using overall_summary_Inr by blast
  from assms df df0 f s
  have "sequence_err (map (lab_data_row pd (filter_profile p df0))
          (unique (map Lab_name (filter_profile p df0)))) = Inl e"
    by (auto simp: profile_id_analysis_body_def Let_def split: sum.splits)
  from sequence_err_Inl [OF this] lab_data_row_Inl show ?thesis unfolding fl by blast
qed

lemma profile_body_nonempty:
  assumes "profile_id_analysis_body pd df p = Inr (Some s, Some labs)"
  shows "overall_summary (filtered df p None) = Inr s \<and>
         sequence_err (map (lab_data_row pd (filtered df p None))
           (unique (map Lab_name (filtered df p None)))) = Inr labs"
proof (cases "filtered df p None = []")
  case True
  with assms filtered_body_empty [of df p pd] show ?thesis by simp
next
  case False
  then obtain df0 where df: "df = Some df0" and df0: "df0 \<noteq> []"
    and f: "filter_profile p df0 \<noteq> []"
    by (auto elim: filtered_ne)
  have fl: "filtered df p None = filter_profile p df0" by (simp add: filtered_def df)
  from assms df df0 f show ?thesis unfolding fl
    by (auto simp: profile_id_analysis_body_def Let_def split: sum.splits)
qed

lemma lot_analysis_nonempty:
  assumes "lot_specific_analysis pd df p = Inr (Some lots, top_lots)"
  shows "sequence_err (map (lot_data_row (filtered df p None))
           (unique (map Lot (filtered df p None)))) = Inr lots"
proof (cases "filtered df p None = []")
  case True
  with assms filtered_lot_empty [of df p pd] show ?thesis by simp
next
  case False
  then obtain df0 where df: "df = Some df0" and df0: "df0 \<noteq> []"
    and f: "filter_profile p df0 \<noteq> []"
    by (auto elim: filtered_ne)
  have fl: "filtered df p None = filter_profile p df0" by (simp add: filtered_def df)
  from assms df df0 f show ?thesis unfolding fl
    by (auto simp: lot_specific_analysis_def Let_def split: sum.splits if_splits)
qed

lemma lot_specific_analysis_Inr: "\<exists>res. lot_specific_analysis pd df p = Inr res"
proof (cases "filtered df p None = []")
  case True
  then show ?thesis using filtered_lot_empty [of df p pd] by simp
next
  case False
  then show ?thesis using filtered_lot_nonempty [of df p pd] by blast
qed

lemma weekly_lab_data_rows:
  assumes "weekly_lab_data pd f = Inr rows" and "r \<in> set rows"
  shows "\<exists>week dr k. lab_week_row (filter (\<lambda>x. Week x = week) f) week dr k = Inr r"
proof -
  from assms(1) obtain rss
    where rss: "sequence_err (map (week_rows pd f) (sort (unique (map Week f)))) = Inr rss"
      and rows: "rows = concat rss"
    by (auto simp: weekly_lab_data_def split: sum.splits)
  from assms(2) rows obtain rs where rs: "rs \<in> set rss" "r \<in> set rs" by auto
  from sequence_err_rows [OF rss rs(1)] obtain w where w: "week_rows pd f w = Inr rs" by blast
  then obtain dr where
    "sequence_err (map (lab_week_row (filter (\<lambda>x. Week x = w) f) w dr)
       (unique (map Lab_name (filter (\<lambda>x. Week x = w) f)))) = Inr rs"
    by (auto simp: week_rows_def Let_def split: sum.splits)
  from sequence_err_rows [OF this rs(2)] show ?thesis by blast
qed

lemma lab_week_row_Inl:
  assumes "lab_week_row wdf week dr k = Inl e"
  shows "e = IndexError \<and> length (split CHR ''-'' week) < 2"
  using assms
  by (auto simp: lab_week_row_def Let_def py_index_def split: sum.splits if_splits)

lemma weekly_analysis_Inl:
  assumes "weekly_analysis pd df p l = Inl e"
  shows "\<exists>r \<in> set (filtered df p l).
           date_range_of pd (Week r) = Inl e \<or>
           (e = IndexError \<and> length (split CHR ''-'' (Week r)) < 2)"
proof -
  let ?f = "filtered df p l"
  have ne: "?f \<noteq> []" using assms filtered_weekly_empty [of df p l pd] by auto
  from assms filtered_weekly_nonempty [OF ne, of pd]
  have "weekly_lab_data pd ?f = Inl e" by (auto split: sum.splits)
  then have "sequence_err (map (week_rows pd ?f) (sort (unique (map Week ?f)))) = Inl e"
    by (auto simp: weekly_lab_data_def split: sum.splits)
  from sequence_err_Inl [OF this] obtain w
    where w: "w \<in> set (sort (unique (map Week ?f)))" "week_rows pd ?f w = Inl e" by blast
  from w(1) obtain r where r: "r \<in> set ?f" "w = Week r" by auto
  show ?thesis
  proof (cases "date_range_of pd w")
    case (Inl e')
    with w(2) have "e' = e" by (simp add: week_rows_def Let_def)
    with Inl r show ?thesis by blast
  next
    case (Inr dr)
    with w(2) have "sequence_err (map (lab_week_row (filter (\<lambda>x. Week x = w) ?f) w dr)
       (unique (map Lab_name (filter (\<lambda>x. Week x = w) ?f)))) = Inl e"
      by (simp add: week_rows_def Let_def)
    from sequence_err_Inl [OF this] lab_week_row_Inl r show ?thesis by blast
  qed
qed

lemma convert_keys_Inl:
  assumes "convert_keys conv (groupby_agg key f) = Inl e"
  shows "\<exists>r \<in> set f. conv (key r) = Inl e"
proof -
  from assms sequence_err_Inl obtain g where g: "g \<in> set (groupby_agg key f)"
    and c: "(case conv (t_Key g) of Inl e \<Rightarrow> Inl e
             | Inr d \<Rightarrow> Inr \<lparr>t_Key = d, t_Total_Runs = t_Total_Runs g,
                            t_Total_Invalid = t_Total_Invalid g,
                            t_Total_Indeterminate = t_Total_Indeterminate g,
                            t_Total_Invalid_Indeterminate = t_Total_Invalid_Indeterminate g\<rparr>)
            = Inl e"
    unfolding convert_keys_def by blast
  from c have "conv (t_Key g) = Inl e" by (auto split: sum.splits)
  moreover from g have "t_Key g \<in> key ` set f" using t_Key_groupby_agg by blast
  ultimately show ?thesis by auto
qed

lemma trend_analysis_Inl:
  assumes "trend_analysis pd df p l = Inl e"
  shows "\<exists>r \<in> set (filtered df p l).
           month_to_date pd (Month r) = Inl e \<or> week_to_date pd (Week r) = Inl e"
proof -
  let ?f = "filtered df p l"
  have ne: "?f \<noteq> []" using assms filtered_trend_empty [of df p l pd] by auto
  then obtain df0 where df: "df = Some df0" and df0: "df0 \<noteq> []"
    and f: "filter_lab l (filter_profile p df0) \<noteq> []"
    by (auto elim: filtered_ne)
  have fl: "?f = filter_lab l (filter_profile p df0)" by (simp add: filtered_def df)
  from assms df df0 f
  have "convert_keys (month_to_date pd) (groupby_agg Month ?f) = Inl e \<or>
        convert_keys (week_to_date pd) (groupby_agg Week ?f) = Inl e"
    unfolding fl by (auto simp: trend_analysis_def Let_def split: sum.splits)
  then show ?thesis using convert_keys_Inl by blast
qed

text \<open>
  C1. Every percentage that an aggregation returns is the value of the formula
  \<open>round((Invalid + Indeterminate) / rows * 100, 2)\<close> on the rows of its group, and 0 for a
  group without rows: the overall percentage of the profile summary on the filtered rows,
  the percentage of a lab on the rows of that lab and its last-10 percentage on the last ten
  of them, the percentage of a lot on the rows of that lot, and the percentage of a weekly
  row on the rows of its week and lab: the rows of the weekly table are, up to their order,
  one row for each pair of a week and a lab of that week, with the label of the week, the
  name of the lab, the number of rows of the pair and the value of the formula on them. A
  group can be without rows: the group of a missing lab or lot, which equals no row. The
  value lies between 0 and 100, in binary64 arithmetic. The division is guarded and never
  raises \<open>ZeroDivisionError\<close>. The lot summary never raises. The profile summary raises
  nothing but the \<open>TypeError\<close> of \<open>', '.join\<close>, and only where \<open>astype(str)\<close> has left a
  device id of the selection missing; where it leaves none missing, the profile summary
  returns. An exception of the weekly or the trend analysis is one of the date handling
  (the trend tables hold counts only, no percentage).
\<close>

theorem invalid_rate_pct_formula_and_range:
  "(profile_id_analysis_body pd df p = Inr (Some s, Some labs) \<longrightarrow>
      s_Overall_Invalid_Indeterminate_pct s = invalid_rate_pct np_round (filtered df p None) \<and>
      (\<forall>r \<in> set labs.
         l_Invalid_Indeterminate_pct r =
           invalid_rate_pct np_round
             (filter (\<lambda>x. cell_eq (Lab_name x) (l_Lab_Name r)) (filtered df p None)) \<and>
         l_Last_10_runs_Invalid_Indeterminate_pct r =
           invalid_rate_pct np_round
             (tail 10 (filter (\<lambda>x. cell_eq (Lab_name x) (l_Lab_Name r)) (filtered df p None))))) \<and>
   (lot_specific_analysis pd df p = Inr (Some lots, top_lots) \<longrightarrow>
      (\<forall>r \<in> set lots.
         Invalid_Indeterminate_pct r =
           invalid_rate_pct py_round
             (filter (\<lambda>x. cell_eq (Lot x) (Lot_Number r)) (filtered df p None)))) \<and>
   (sort_weekly_ok pd \<and> weekly_analysis pd df p l = Inr (Some t) \<longrightarrow>
      mset (map (\<lambda>r. (w_Week r, w_Lab_Name r, w_Total_Runs r, w_Invalid_Indeterminate_pct r)) t) =
      mset (map (\<lambda>(week, lab_name).
                   (week_label week, lab_name,
                    length (week_lab_rows (filtered df p l) week lab_name),
                    invalid_rate_pct py_round (week_lab_rows (filtered df p l) week lab_name)))
              (week_lab_groups (filtered df p l)))) \<and>
   0 \<le> invalid_rate_pct py_round g \<and> invalid_rate_pct py_round g \<le> 100 \<and>
   0 \<le> invalid_rate_pct np_round g \<and> invalid_rate_pct np_round g \<le> 100 \<and>
   invalid_rate_pct py_round [] = 0 \<and> invalid_rate_pct np_round [] = 0 \<and>
   (\<exists>x. invalid_rate i d n = Inr x) \<and>
   (\<exists>res. lot_specific_analysis pd df p = Inr res) \<and>
   (profile_id_analysis_body pd df p = Inl e \<longrightarrow>
      e = TypeError \<and>
      (\<exists>r \<in> set (filtered df p None). astype_str pd (Truelab_id r) = None)) \<and>
   ((\<forall>r \<in> set (filtered df p None). astype_str pd (Truelab_id r) \<noteq> None) \<longrightarrow>
      (\<exists>res. profile_id_analysis_body pd df p = Inr res)) \<and>
   (weekly_analysis pd df p l = Inl e \<longrightarrow>
      (\<exists>r \<in> set (filtered df p l).
         date_range_of pd (Week r) = Inl e \<or>
         (e = IndexError \<and> length (split CHR ''-'' (Week r)) < 2))) \<and>
   (trend_analysis pd df p l = Inl e \<longrightarrow>
      (\<exists>r \<in> set (filtered df p l).
         month_to_date pd (Month r) = Inl e \<or> week_to_date pd (Week r) = Inl e))"
proof -
  have 1: "s_Overall_Invalid_Indeterminate_pct s = invalid_rate_pct np_round (filtered df p None) \<and>
      (\<forall>r \<in> set labs.
         l_Invalid_Indeterminate_pct r =
           invalid_rate_pct np_round
             (filter (\<lambda>x. cell_eq (Lab_name x) (l_Lab_Name r)) (filtered df p None)) \<and>
         l_Last_10_runs_Invalid_Indeterminate_pct r =
           invalid_rate_pct np_round
             (tail 10 (filter (\<lambda>x. cell_eq (Lab_name x) (l_Lab_Name r)) (filtered df p None))))"
    if a: "profile_id_analysis_body pd df p = Inr (Some s, Some labs)"
  proof -
    from profile_body_nonempty [OF a]
    have s: "overall_summary (filtered df p None) = Inr s"
      and ls: "sequence_err (map (lab_data_row pd (filtered df p None))
           (unique (map Lab_name (filtered df p None)))) = Inr labs" by simp_all
    show ?thesis
      using overall_summary_pct [OF s] sequence_err_rows [OF ls] lab_data_row_pct
      by metis
  qed
  have 2: "\<forall>r \<in> set lots.
         Invalid_Indeterminate_pct r =
           invalid_rate_pct py_round
             (filter (\<lambda>x. cell_eq (Lot x) (Lot_Number r)) (filtered df p None))"
    if a: "lot_specific_analysis pd df p = Inr (Some lots, top_lots)"
    using sequence_err_rows [OF lot_analysis_nonempty [OF a]] lot_data_row_pct by metis
  have 3: "mset (map (\<lambda>r. (w_Week r, w_Lab_Name r, w_Total_Runs r, w_Invalid_Indeterminate_pct r)) t) =
      mset (map (\<lambda>(week, lab_name).
                   (week_label week, lab_name,
                    length (week_lab_rows (filtered df p l) week lab_name),
                    invalid_rate_pct py_round (week_lab_rows (filtered df p l) week lab_name)))
              (week_lab_groups (filtered df p l)))"
    if a: "sort_weekly_ok pd \<and> weekly_analysis pd df p l = Inr (Some t)"
  proof -
    have ne: "filtered df p l \<noteq> []"
      using a filtered_weekly_empty [of df p l pd] by auto
    from a filtered_weekly_nonempty [OF ne, of pd] obtain rows
      where rows: "weekly_lab_data pd (filtered df p l) = Inr rows"
        and t: "t = (if rows \<noteq> [] then sort_weekly pd rows else rows)"
      by (auto split: sum.splits)
    from a have "mset (sort_weekly pd rows) = mset rows" by (simp add: sort_weekly_ok_def)
    with t have "mset t = mset rows" by (simp split: if_splits)
    then have "mset (map (\<lambda>r. (w_Week r, w_Lab_Name r, w_Total_Runs r, w_Invalid_Indeterminate_pct r)) t) =
        mset (map (\<lambda>r. (w_Week r, w_Lab_Name r, w_Total_Runs r, w_Invalid_Indeterminate_pct r)) rows)"
      by (metis mset_map)
    with weekly_lab_data_groups [OF rows] show ?thesis by simp
  qed
  have 4: "invalid_rate_pct py_round [] = 0 \<and> invalid_rate_pct np_round [] = 0"
    by (simp add: invalid_rate_pct_def)
  have 5: "\<exists>x. invalid_rate i d n = Inr x" by simp
  have 6: "\<exists>res. profile_id_analysis_body pd df p = Inr res"
    if a: "\<forall>r \<in> set (filtered df p None). astype_str pd (Truelab_id r) \<noteq> None"
  proof (cases "profile_id_analysis_body pd df p")
    case (Inl e')
    from profile_id_analysis_body_Inl [OF this] a show ?thesis by blast
  next
    case (Inr res)
    then show ?thesis by blast
  qed
  show ?thesis
    using 1 2 3 4 5 6 invalid_rate_pct_range [of g] profile_id_analysis_body_Inl [of pd df p e]
      lot_specific_analysis_Inr [of pd df p] weekly_analysis_Inl [of pd df p l e]
      trend_analysis_Inl [of pd df p l e]
    by (intro conjI impI) blast+
qed

theorem invalid_rate_pct_formula_and_range_witness:
  "sort_weekly_ok ref_pandas \<and>
   profile_id_analysis_body ref_pandas (Some scenario_df) (Some ''P1'') =
     Inr (Some \<lparr>s_Total_Runs = 3, s_Total_Invalids = 2, s_Total_Indeterminates = 0,
                  s_Overall_Invalid_Indeterminate_pct = 4691484174324859 / 70368744177664\<rparr>,
          Some [\<lparr>l_Lab_Name = Some ''A'', l_Truelab_ID = ''T1'', l_Total_Tests = 2,
                   l_Total_Detected = 1, l_Total_Invalid_Indeterminate = 2,
                   l_Invalid_Indeterminate_pct = 100,
                   l_Last_10_runs_Invalid_Indeterminate_pct = 100\<rparr>,
                \<lparr>l_Lab_Name = Some ''B'', l_Truelab_ID = ''T2'', l_Total_Tests = 1,
                   l_Total_Detected = 1, l_Total_Invalid_Indeterminate = 0,
                   l_Invalid_Indeterminate_pct = 0,
                   l_Last_10_runs_Invalid_Indeterminate_pct = 0\<rparr>]) \<and>
   lot_specific_analysis ref_pandas (Some scenario_df) (Some ''P1'') =
     Inr (Some [\<lparr>Lot_Number = Some ''L1'', Total_Runs = 2, Total_Invalid_Indeterminate = 2,
                   Invalid_Indeterminate_pct = 100\<rparr>,
                \<lparr>Lot_Number = Some ''L2'', Total_Runs = 1, Total_Invalid_Indeterminate = 0,
                   Invalid_Indeterminate_pct = 0\<rparr>],
          Some [\<lparr>Lot_Number = Some ''L1'', Total_Runs = 2, Total_Invalid_Indeterminate = 2,
                   Invalid_Indeterminate_pct = 100\<rparr>,
                \<lparr>Lot_Number = Some ''L2'', Total_Runs = 1, Total_Invalid_Indeterminate = 0,
                   Invalid_Indeterminate_pct = 0\<rparr>]) \<and>
   weekly_analysis ref_pandas (Some scenario_df) (Some ''P1'') None =
     Inr (Some [\<lparr>w_Week = ''2024 Week 02'', w_Date_Range = ''15-01-2024 to 21-01-2024'',
                   w_Lab_Name = Some ''A'', w_Total_Runs = 2, w_Total_Invalid_Indeterminate = 2,
                   w_Invalid_Indeterminate_pct = 100\<rparr>,
                \<lparr>w_Week = ''2024 Week 02'', w_Date_Range = ''15-01-2024 to 21-01-2024'',
                   w_Lab_Name = Some ''B'', w_Total_Runs = 1, w_Total_Invalid_Indeterminate = 0,
                   w_Invalid_Indeterminate_pct = 0\<rparr>]) \<and>
   invalid_rate_pct np_round (filtered (Some scenario_df) (Some ''P1'') None) =
     4691484174324859 / 70368744177664 \<and>
   invalid_rate_pct py_round
     (filter (\<lambda>x. cell_eq (Lot x) (Some ''L1'')) (filtered (Some scenario_df) (Some ''P1'') None)) = 100 \<and>
   invalid_rate_pct np_round
     (filter (\<lambda>x. cell_eq (Lab_name x) (Some ''B'')) (filtered (Some scenario_df) (Some ''P1'') None)) = 0 \<and>
   week_lab_groups (filtered (Some scenario_df) (Some ''P1'') None) =
     [(''2024-02'', Some ''A''), (''2024-02'', Some ''B'')] \<and>
   mset [(''2024 Week 02'', Some ''A'', 2, 100), (''2024 Week 02'', Some ''B'', 1, 0)] =
     mset (map (\<lambda>(week, lab_name).
                  (week_label week, lab_name,
                   length (week_lab_rows (filtered (Some scenario_df) (Some ''P1'') None) week lab_name),
                   invalid_rate_pct py_round
                     (week_lab_rows (filtered (Some scenario_df) (Some ''P1'') None) week lab_name)))
             [(''2024-02'', Some ''A''), (''2024-02'', Some ''B'')]) \<and>
   profile_id_analysis_body na_keeping_pandas (Some missing_device_df) None = Inl TypeError \<and>
   (\<exists>r \<in> set (filtered (Some missing_device_df) None None).
      astype_str na_keeping_pandas (Truelab_id r) = None) \<and>
   (\<exists>res. profile_id_analysis_body ref_pandas (Some missing_device_df) None = Inr res)"
proof -
  let ?s = "\<lparr>s_Total_Runs = 3, s_Total_Invalids = 2, s_Total_Indeterminates = 0,
                  s_Overall_Invalid_Indeterminate_pct = 4691484174324859 / 70368744177664\<rparr>"
  let ?la = "\<lparr>l_Lab_Name = Some ''A'', l_Truelab_ID = ''T1'', l_Total_Tests = 2,
                   l_Total_Detected = 1, l_Total_Invalid_Indeterminate = 2,
                   l_Invalid_Indeterminate_pct = 100,
                   l_Last_10_runs_Invalid_Indeterminate_pct = 100\<rparr>"
  let ?lb = "\<lparr>l_Lab_Name = Some ''B'', l_Truelab_ID = ''T2'', l_Total_Tests = 1,
                   l_Total_Detected = 1, l_Total_Invalid_Indeterminate = 0,
                   l_Invalid_Indeterminate_pct = 0,
                   l_Last_10_runs_Invalid_Indeterminate_pct = 0\<rparr>"
  let ?l1 = "\<lparr>Lot_Number = Some ''L1'', Total_Runs = 2, Total_Invalid_Indeterminate = 2,
                   Invalid_Indeterminate_pct = 100\<rparr>"
  let ?l2 = "\<lparr>Lot_Number = Some ''L2'', Total_Runs = 1, Total_Invalid_Indeterminate = 0,
                   Invalid_Indeterminate_pct = 0\<rparr>"
  let ?wa = "\<lparr>w_Week = ''2024 Week 02'', w_Date_Range = ''15-01-2024 to 21-01-2024'',
                   w_Lab_Name = Some ''A'', w_Total_Runs = 2, w_Total_Invalid_Indeterminate = 2,
                   w_Invalid_Indeterminate_pct = 100\<rparr>"
  let ?wb = "\<lparr>w_Week = ''2024 Week 02'', w_Date_Range = ''15-01-2024 to 21-01-2024'',
                   w_Lab_Name = Some ''B'', w_Total_Runs = 1, w_Total_Invalid_Indeterminate = 0,
                   w_Invalid_Indeterminate_pct = 0\<rparr>"
  have b: "profile_id_analysis_body ref_pandas (Some scenario_df) (Some ''P1'') =
      Inr (Some ?s, Some [?la, ?lb])"
    by code_simp
  have lo: "lot_specific_analysis ref_pandas (Some scenario_df) (Some ''P1'') =
      Inr (Some [?l1, ?l2], Some [?l1, ?l2])"
    by code_simp
  have w: "weekly_analysis ref_pandas (Some scenario_df) (Some ''P1'') None = Inr (Some [?wa, ?wb])"
    by code_simp
  have gr: "week_lab_groups (filtered (Some scenario_df) (Some ''P1'') None) =
      [(''2024-02'', Some ''A''), (''2024-02'', Some ''B'')]"
    by code_simp
  have ty: "profile_id_analysis_body na_keeping_pandas (Some missing_device_df) None = Inl TypeError"
    by code_simp
  have ids: "\<forall>r \<in> set (filtered (Some missing_device_df) None None).
      astype_str ref_pandas (Truelab_id r) \<noteq> None"
    by (simp add: filtered_def filter_profile_def missing_device_df_def ref_pandas_def)
  note th = invalid_rate_pct_formula_and_range
    [where df = "Some scenario_df" and p = "Some ''P1''" and s = ?s and labs = "[?la, ?lb]"
       and pd = ref_pandas and lots = "[?l1, ?l2]" and top_lots = "Some [?l1, ?l2]"
       and l = None and t = "[?wa, ?wb]"]
  from th b have 1: "invalid_rate_pct np_round (filtered (Some scenario_df) (Some ''P1'') None) =
     4691484174324859 / 70368744177664"
    by simp
  from th b have 2: "invalid_rate_pct np_round
     (filter (\<lambda>x. cell_eq (Lab_name x) (Some ''B'')) (filtered (Some scenario_df) (Some ''P1'') None)) = 0"
    by simp
  from th lo have 3: "invalid_rate_pct py_round
     (filter (\<lambda>x. cell_eq (Lot x) (Some ''L1'')) (filtered (Some scenario_df) (Some ''P1'') None)) = 100"
    by simp
  from th w sort_weekly_ok_ref
  have "mset (map (\<lambda>r. (w_Week r, w_Lab_Name r, w_Total_Runs r, w_Invalid_Indeterminate_pct r))
               [?wa, ?wb]) =
     mset (map (\<lambda>(week, lab_name).
                  (week_label week, lab_name,
                   length (week_lab_rows (filtered (Some scenario_df) (Some ''P1'') None) week lab_name),
                   invalid_rate_pct py_round
                     (week_lab_rows (filtered (Some scenario_df) (Some ''P1'') None) week lab_name)))
             (week_lab_groups (filtered (Some scenario_df) (Some ''P1'') None)))"
    by blast
  then have 4: "mset [(''2024 Week 02'', Some ''A'', 2, 100), (''2024 Week 02'', Some ''B'', 1, 0)] =
     mset (map (\<lambda>(week, lab_name).
                  (week_label week, lab_name,
                   length (week_lab_rows (filtered (Some scenario_df) (Some ''P1'') None) week lab_name),
                   invalid_rate_pct py_round
                     (week_lab_rows (filtered (Some scenario_df) (Some ''P1'') None) week lab_name)))
             [(''2024-02'', Some ''A''), (''2024-02'', Some ''B'')])"
    unfolding gr by simp
  from invalid_rate_pct_formula_and_range
    [where pd = na_keeping_pandas and df = "Some missing_device_df" and p = None and e = TypeError]
    ty
  have 5: "\<exists>r \<in> set (filtered (Some missing_device_df) None None).
      astype_str na_keeping_pandas (Truelab_id r) = None"
    by blast
  from invalid_rate_pct_formula_and_range
    [where pd = ref_pandas and df = "Some missing_device_df" and p = None]
    ids
  have 6: "\<exists>res. profile_id_analysis_body ref_pandas (Some missing_device_df) None = Inr res"
    by blast
  from b lo w gr ty 1 2 3 4 5 6 sort_weekly_ok_ref show ?thesis by blast
qed

subsection \<open>The column selection and its alternative\<close>

lemma map_upt_nth: "map (\<lambda>i. f (xs ! i)) [0..<length xs] = map f xs"
proof -
  have "map (\<lambda>i. f (xs ! i)) [0..<length xs] = map f (map ((!) xs) [0..<length xs])"
    by (simp add: comp_def)
  then show ?thesis by (simp only: map_nth)
qed

lemma build_new_df_invariant:
  assumes "frame_columns new_df = map (\<lambda>m. Name (snd m)) seen"
    and "frame_values new_df =
           (if \<exists>m \<in> set seen. fst m < length (frame_columns data)
            then map (\<lambda>r. map (\<lambda>m. pick data r (fst m)) seen) (frame_values data) else [])"
  shows "build_new_df data mapping new_df =
           Inr \<lparr>frame_columns = map (\<lambda>m. Name (snd m)) (seen @ mapping),
                frame_values =
                  (if \<exists>m \<in> set (seen @ mapping). fst m < length (frame_columns data)
                   then map (\<lambda>r. map (\<lambda>m. pick data r (fst m)) (seen @ mapping)) (frame_values data)
                   else [])\<rparr>"
  using assms
proof (induction mapping arbitrary: seen new_df)
  case Nil
  then show ?case by simp
next
  case (Cons m mapping)
  obtain col_idx col_name where m: "m = (col_idx, col_name)" by (cases m)
  let ?w = "length (frame_columns data)"
  show ?case
  proof (cases "col_idx < ?w")
    case True
    let ?series = "map (\<lambda>r. r ! col_idx) (frame_values data)"
    let ?next = "assign_series new_df col_name ?series"
    have c: "frame_columns ?next = map (\<lambda>m. Name (snd m)) (seen @ [m])"
      using Cons.prems(1) by (simp add: assign_series_def m)
    have v: "frame_values ?next =
               map (\<lambda>r. map (\<lambda>m. pick data r (fst m)) (seen @ [m])) (frame_values data)"
    proof (cases "frame_values new_df = []")
      case e: True
      show ?thesis
      proof (cases "\<exists>m \<in> set seen. fst m < ?w")
        case True
        with Cons.prems(2) e have "frame_values data = []" by simp
        then show ?thesis using e by (simp add: assign_series_def)
      next
        case False
        then have "map (\<lambda>m. pick data r (fst m)) seen = replicate (length seen) None" for r
          by (induction seen) (auto simp: pick_def)
        then show ?thesis using e Cons.prems(1) \<open>col_idx < ?w\<close>
          by (simp add: assign_series_def m pick_def)
      qed
    next
      case ne: False
      with Cons.prems(2) have fv: "frame_values new_df =
          map (\<lambda>r. map (\<lambda>m. pick data r (fst m)) seen) (frame_values data)"
        by (auto split: if_splits)
      have "frame_values ?next =
          map (\<lambda>i. map (\<lambda>m. pick data (frame_values data ! i) (fst m)) seen @
                      [frame_values data ! i ! col_idx]) [0..<length (frame_values data)]"
        using ne fv by (simp add: assign_series_def)
      also have "\<dots> = map (\<lambda>r. map (\<lambda>m. pick data r (fst m)) seen @ [r ! col_idx]) (frame_values data)"
        by (rule map_upt_nth)
      finally show ?thesis using \<open>col_idx < ?w\<close> by (simp add: m pick_def)
    qed
    have v': "frame_values ?next =
           (if \<exists>m \<in> set (seen @ [m]). fst m < ?w
            then map (\<lambda>r. map (\<lambda>m. pick data r (fst m)) (seen @ [m])) (frame_values data) else [])"
      using v True by (simp add: m)
    from Cons.IH [OF c v'] True show ?thesis
      by (simp add: m iloc_column_def)
  next
    case False
    let ?next = "assign_scalar new_df col_name None"
    have c: "frame_columns ?next = map (\<lambda>m. Name (snd m)) (seen @ [m])"
      using Cons.prems(1) by (simp add: assign_scalar_def m)
    have v': "frame_values ?next =
           (if \<exists>m \<in> set (seen @ [m]). fst m < ?w
            then map (\<lambda>r. map (\<lambda>m. pick data r (fst m)) (seen @ [m])) (frame_values data) else [])"
      using Cons.prems(2) False by (auto simp: assign_scalar_def m pick_def)
    from Cons.IH [OF c v'] False show ?thesis
      by (simp add: m)
  qed
qed

lemma alternative_method_result:
  "alternative_method data =
     Inr \<lparr>frame_columns = map (\<lambda>m. Name (snd m)) column_mapping,
          frame_values =
            (if 0 < length (frame_columns data)
             then map (\<lambda>r. map (pick data r) (map fst column_mapping)) (frame_values data)
             else [])\<rparr>"
proof -
  have "(\<exists>m \<in> set column_mapping. fst m < length (frame_columns data)) \<longleftrightarrow>
        0 < length (frame_columns data)"
    by (auto simp: column_mapping_def)
  then show ?thesis
    unfolding alternative_method_def
    using build_new_df_invariant [of "\<lparr>frame_columns = [], frame_values = []\<rparr>" "[]" data column_mapping]
    by (simp add: comp_def)
qed

lemma select_required_fails_iff:
  "(\<exists>e. select_required data = Inl e) \<longleftrightarrow> length (frame_columns data) < 10"
  by (auto simp: select_required_def iloc_columns_def set_columns_def column_mapping_def
      split: sum.splits if_splits)

text \<open>
  C8. The required positions are 0, 1, 3, 4, 5, 8 and 9. The direct selection raises
  exactly for a table of fewer than ten columns, and the alternative method then builds the
  table field by field: it never raises, its columns are the seven names, and every row of
  the input gives a row whose cell is the cell of the input at the position of the field,
  or missing when the input has no such column (for a table without any column there are
  no rows). The file is then not dropped: \<open>process_file\<close> returns that table.
\<close>

theorem fallback_never_raises:
  "map fst column_mapping = [0, 1, 3, 4, 5, 8, 9] \<and>
   ((\<exists>e. select_required data = Inl e) \<longleftrightarrow> length (frame_columns data) < 10) \<and>
   alternative_method data =
     Inr \<lparr>frame_columns = map (\<lambda>m. Name (snd m)) column_mapping,
          frame_values =
            (if 0 < length (frame_columns data)
             then map (\<lambda>r. map (pick data r) [0, 1, 3, 4, 5, 8, 9]) (frame_values data)
             else [])\<rparr> \<and>
   (read_csv f = Inr data \<and> no_header (frame_columns data) = Inr False \<and>
    length (frame_columns data) < 10 \<longrightarrow>
      process_file f = alternative_method data)"
proof (intro conjI impI)
  show m: "map fst column_mapping = [0, 1, 3, 4, 5, 8, 9]" by (simp add: column_mapping_def)
  show "(\<exists>e. select_required data = Inl e) \<longleftrightarrow> length (frame_columns data) < 10"
    by (rule select_required_fails_iff)
  show "alternative_method data =
     Inr \<lparr>frame_columns = map (\<lambda>m. Name (snd m)) column_mapping,
          frame_values =
            (if 0 < length (frame_columns data)
             then map (\<lambda>r. map (pick data r) [0, 1, 3, 4, 5, 8, 9]) (frame_values data)
             else [])\<rparr>"
    using alternative_method_result [of data] unfolding m .
next
  assume a: "read_csv f = Inr data \<and> no_header (frame_columns data) = Inr False \<and>
    length (frame_columns data) < 10"
  then obtain e where "select_required data = Inl e"
    using select_required_fails_iff [of data] by blast
  with a show "process_file f = alternative_method data"
    by (simp add: process_file_def)
qed

theorem fallback_never_raises_witness:
  "read_csv narrow_file =
     Inr \<lparr>frame_columns = take 6 header10,
          frame_values = [[Some ''15-01-2024 10:00:00'', Some ''P1'', Some ''S1'', Some ''Detected'',
                           Some ''Invalid'', Some ''A'']]\<rparr> \<and>
   no_header (take 6 header10) = Inr False \<and>
   process_file narrow_file =
     Inr \<lparr>frame_columns = map Name [''Test_date_time'', ''Profile_id'', ''Test_result'',
                                      ''Test_status'', ''Lab_name'', ''Truelab_id'', ''Lot''],
          frame_values = [[Some ''15-01-2024 10:00:00'', Some ''P1'', Some ''Detected'',
                           Some ''Invalid'', Some ''A'', None, None]]\<rparr>"
proof -
  let ?data = "\<lparr>frame_columns = take 6 header10,
          frame_values = [[Some ''15-01-2024 10:00:00'', Some ''P1'', Some ''S1'', Some ''Detected'',
                           Some ''Invalid'', Some ''A'']]\<rparr>"
  have r: "read_csv narrow_file = Inr ?data" by (simp add: narrow_file_def)
  have h: "no_header (take 6 header10) = Inr False" by code_simp
  have w: "length (frame_columns ?data) < 10" by (simp add: header10_def)
  from fallback_never_raises [of ?data narrow_file] r h w
  have "process_file narrow_file =
     Inr \<lparr>frame_columns = map (\<lambda>m. Name (snd m)) column_mapping,
          frame_values =
            (if 0 < length (frame_columns ?data)
             then map (\<lambda>r. map (pick ?data r) [0, 1, 3, 4, 5, 8, 9]) (frame_values ?data)
             else [])\<rparr>"
    by simp
  then show ?thesis using r h
    by (simp add: column_mapping_def header10_def pick_def)
qed

subsection \<open>The combined data frame\<close>

lemma dropna_filter:
  "map (\<lambda>(r, t). (r, Some t)) (dropna xs) = filter (\<lambda>(r, t). t \<noteq> None) xs"
  by (induction xs rule: dropna.induct) simp_all

lemma dropna_Nil_iff: "dropna xs = [] \<longleftrightarrow> filter (\<lambda>(r, t). t \<noteq> None) xs = []"
  by (induction xs rule: dropna.induct) simp_all

lemma load_None_iff: "load_and_process_csv pd files = None \<longleftrightarrow> all_data_of files = []"
  by (auto simp: load_and_process_csv_def Let_def all_data_of_def)

lemma load_Some:
  assumes "load_and_process_csv pd files = Some ds"
  shows "ds = map (\<lambda>(r, t). make_row pd r t) (dropna (parsed_rows pd files))"
  using assms by (auto simp: load_and_process_csv_def Let_def parsed_rows_def split: if_splits)

text \<open>
  C5. \<open>load_and_process_csv\<close> raises nothing: the exceptions of a file are caught and the
  file is skipped. Its result holds exactly the rows whose parsed time is not missing, in
  their order, each with its time and keys; no other row is dropped. Without rows that
  survive there is no data in the sense of the source (\<open>df is None or df.empty\<close>): the
  result is \<open>None\<close> when the list of files is empty or no file could be read, and a data
  frame without rows otherwise.
\<close>

theorem load_drops_null_times:
  "load_and_process_csv pd [] = None \<and>
   (load_and_process_csv pd files = None \<longleftrightarrow> all_data_of files = []) \<and>
   (load_and_process_csv pd files = Some ds \<longrightarrow>
      ds = map (\<lambda>(r, t). make_row pd r t) (dropna (parsed_rows pd files)) \<and>
      (\<forall>x \<in> set ds. Test_date_time x \<noteq> None)) \<and>
   map (\<lambda>(r, t). (r, Some t)) (dropna xs) = filter (\<lambda>(r, t). t \<noteq> None) xs \<and>
   (is_empty_dataset (load_and_process_csv pd files) \<longleftrightarrow>
      filter (\<lambda>(r, t). t \<noteq> None) (parsed_rows pd files) = [])"
proof (intro conjI impI)
  show "load_and_process_csv pd [] = None" by (simp add: load_and_process_csv_def)
  show "load_and_process_csv pd files = None \<longleftrightarrow> all_data_of files = []" by (rule load_None_iff)
  show "map (\<lambda>(r, t). (r, Some t)) (dropna xs) = filter (\<lambda>(r, t). t \<noteq> None) xs"
    by (rule dropna_filter)
  show "is_empty_dataset (load_and_process_csv pd files) \<longleftrightarrow>
      filter (\<lambda>(r, t). t \<noteq> None) (parsed_rows pd files) = []"
  proof (cases "load_and_process_csv pd files")
    case None
    then have "all_data_of files = []" by (simp add: load_None_iff)
    then have "parsed_rows pd files = []" by (simp add: parsed_rows_def concat_rows_def)
    with None show ?thesis by (simp add: is_empty_dataset_def)
  next
    case (Some ds)
    from load_Some [OF Some] Some show ?thesis
      by (simp add: is_empty_dataset_def dropna_Nil_iff)
  qed
next
  assume a: "load_and_process_csv pd files = Some ds"
  from load_Some [OF a] show "ds = map (\<lambda>(r, t). make_row pd r t) (dropna (parsed_rows pd files))" .
  then show "\<forall>x \<in> set ds. Test_date_time x \<noteq> None" by (auto simp: make_row_def)
qed

theorem load_drops_null_times_witness:
  "load_and_process_csv ref_pandas [unreadable_file, scenario_file] = Some scenario_df \<and>
   scenario_df = map (\<lambda>(r, t). make_row ref_pandas r t)
                   (dropna (parsed_rows ref_pandas [unreadable_file, scenario_file])) \<and>
   length (parsed_rows ref_pandas [unreadable_file, scenario_file]) = 4 \<and>
   length scenario_df = 3 \<and>
   list_all (\<lambda>x. Test_date_time x \<noteq> None) scenario_df \<and>
   load_and_process_csv ref_pandas [unreadable_file] = None \<and>
   is_empty_dataset (load_and_process_csv ref_pandas [unreadable_file])"
proof -
  have l: "load_and_process_csv ref_pandas [unreadable_file, scenario_file] = Some scenario_df"
    by code_simp
  have n: "length (parsed_rows ref_pandas [unreadable_file, scenario_file]) = 4"
    by code_simp
  have u: "all_data_of [unreadable_file] = []"
    by code_simp
  note th = load_drops_null_times [where pd = ref_pandas]
  from th [where files = "[unreadable_file, scenario_file]" and ds = scenario_df] l
  have 1: "scenario_df = map (\<lambda>(r, t). make_row ref_pandas r t)
                   (dropna (parsed_rows ref_pandas [unreadable_file, scenario_file]))"
    and 2: "\<forall>x \<in> set scenario_df. Test_date_time x \<noteq> None"
    by simp_all
  from th [where files = "[unreadable_file]"] u
  have 3: "load_and_process_csv ref_pandas [unreadable_file] = None" by simp
  have 4: "length scenario_df = 3" by (simp add: scenario_df_def)
  from l 1 2 3 4 n show ?thesis by (simp add: list_all_iff is_empty_dataset_def)
qed

subsection \<open>How the time of a row is parsed\<close>

text \<open>
  The times of the data frame that \<open>load_and_process_csv\<close> returns are the values of the
  one call \<open>pd.to_datetime(..., errors='coerce')\<close> on the column that are not missing,
  whatever the library; \<open>parse_date\<close> has no part in them.
\<close>

lemma builder_uses_coerce_only:
  assumes "load_and_process_csv pd files = Some ds"
    and "length (to_datetime_coerce_column pd (map (\<lambda>r. r ! 0) (concat_rows (all_data_of files)))) =
         length (concat_rows (all_data_of files))"
  shows "map Test_date_time ds =
           filter (\<lambda>t. t \<noteq> None)
             (to_datetime_coerce_column pd (map (\<lambda>r. r ! 0) (concat_rows (all_data_of files))))"
proof -
  have d: "map (\<lambda>(r, t). Some t) (dropna xs) = filter (\<lambda>t. t \<noteq> None) (map snd xs)"
    for xs :: "(cell list \<times> timestamp option) list"
    by (induction xs rule: dropna.induct) simp_all
  from load_Some [OF assms(1)]
  have "map Test_date_time ds = map (\<lambda>(r, t). Some t) (dropna (parsed_rows pd files))"
    by (simp add: make_row_def comp_def split_def)
  also have "\<dots> = filter (\<lambda>t. t \<noteq> None) (map snd (parsed_rows pd files))" by (rule d)
  also have "map snd (parsed_rows pd files) =
      to_datetime_coerce_column pd (map (\<lambda>r. r ! 0) (concat_rows (all_data_of files)))"
    unfolding parsed_rows_def using assms(2) by (simp add: map_snd_zip)
  finally show ?thesis .
qed

text \<open>
  C2 says that the builder parses the time of every row by a prioritized order of attempts:
  first the format with the day first, then the parse without a format, then the permissive
  one. \<open>parse_date\<close> does that, but \<open>load_and_process_csv\<close> does not call it. With the
  reference library, the text \<open>01-02-2024 10:00:00\<close> is the first of February for
  \<open>parse_date\<close>, whose first attempt is the format \<open>%d-%m-%Y %H:%M:%S\<close>, and the second of
  January in the data frame that the builder returns for a file with this one row.
\<close>

theorem builder_parses_month_first:
  "parse_date ref_pandas ''01-02-2024 10:00:00'' = Some 1706781600000000000 \<and>
   ref_strftime ''%d-%m-%Y'' 1706781600000000000 = ''01-02-2024'' \<and>
   load_and_process_csv ref_pandas [ambiguous_date_file] =
     Some [\<lparr>Test_date_time = Some 1704189600000000000, Profile_id = Some ''P1'',
             Test_result = Some ''Detected'', Test_status = Some ''Valid'',
             Lab_name = Some ''A'', Truelab_id = Some ''T1'', Lot = Some ''L1'',
             Month = ''2024-01'', Week = ''2024-00''\<rparr>] \<and>
   ref_strftime ''%d-%m-%Y'' 1704189600000000000 = ''02-01-2024''"
  by code_simp

subsection \<open>Week keys that cannot be decomposed\<close>

text \<open>
  Inside the \<open>try\<close> the fallback works: no \<open>IndexError\<close> and no \<open>ValueError\<close> leaves the
  computation of the date range, and a key whose week cannot be parsed gets the label
  \<open>Week\<close> followed by the key.
\<close>

lemma date_range_of_catches:
  "date_range_of pd week \<noteq> Inl IndexError \<and> date_range_of pd week \<noteq> Inl ValueError"
  by (simp add: date_range_of_def split: sum.splits)

lemma date_range_of_fallback:
  assumes "week_date_range pd week = Inl ValueError"
  shows "date_range_of pd week = Inr (''Week '' @ week)"
  using assms by (simp add: date_range_of_def)


end
